theory Spec2Isabelle
  imports Complex_Main "HOL-Library.Multiset"
begin

section \<open>The journey planner: waypoints, geocoding, terrain and the edge filter\<close>

text \<open>
  A shallow embedding of the page component \<open>Home\<close> (the waypoint list, the geocoding
  batch, the bounding box, the terrain toggle) and of the two revisions of the edge
  middleware. Every definition follows the TypeScript/JavaScript source statement by
  statement; what the JavaScript runtime supplies (\<open>parseFloat\<close>,
  \<open>encodeURIComponent\<close>, \<open>fetch\<close>) is a parameter of the model.
\<close>

subsection \<open>JavaScript values\<close>

text \<open>
  A JavaScript Number is an IEEE double: a finite value, one of the two infinities, or
  NaN. The page only copies and compares coordinates, it never does arithmetic on them,
  so a finite value is modelled by the real number it denotes. \<open>lt\<close> and \<open>gt\<close> are
  the operators \<open><\<close> and \<open>>\<close>: every comparison with NaN is false.
\<close>

datatype number = NaN | NegInf | Fin real | PosInf

fun lt :: "number \<Rightarrow> number \<Rightarrow> bool" where
  "lt NaN _ = False"
| "lt _ NaN = False"
| "lt _ NegInf = False"
| "lt NegInf _ = True"
| "lt PosInf _ = False"
| "lt (Fin x) (Fin y) = (x < y)"
| "lt (Fin x) PosInf = True"

definition gt :: "number \<Rightarrow> number \<Rightarrow> bool" where
  "gt a b = lt b a"

definition le :: "number \<Rightarrow> number \<Rightarrow> bool" where
  \<comment> \<open>the operator \<open><=\<close>\<close>
  "le a b = (a \<noteq> NaN \<and> b \<noteq> NaN \<and> \<not> lt b a)"

text \<open>
  An Array is the list of its elements; an element that is \<open>undefined\<close> (or a hole,
  which reads as \<open>undefined\<close>) is \<open>None\<close>. Reading outside the elements gives
  \<open>undefined\<close>. Writing at an index at or after the length extends the array, the new
  elements in between being holes; writing at a negative key, or at a key from
  \<open>2^32 - 1\<close> on, which is not an array index, creates a property that is not an
  element, so the elements stay as they are. Indices are integers.
\<close>

type_synonym 'a jsarray = "'a option list"

definition arr_get :: "'a jsarray \<Rightarrow> int \<Rightarrow> 'a option" where
  "arr_get xs i = (if 0 \<le> i \<and> i < int (length xs) then xs ! nat i else None)"

definition arr_set :: "'a jsarray \<Rightarrow> int \<Rightarrow> 'a option \<Rightarrow> 'a jsarray" where
  "arr_set xs i v =
     (if i < 0 then xs
      else if i < int (length xs) then xs[nat i := v]
      else if i \<ge> 4294967295 then xs
      else xs @ replicate (nat i - length xs) None @ [v])"

subsection \<open>The waypoint list\<close>

text \<open>
  A waypoint is \<open>{ name, coord: [longitude, latitude] }\<close>. The state \<open>waypoints\<close> of
  the page is an array of them.
\<close>

record waypoint =
  name :: string
  coord :: "number \<times> number"

text \<open>
  \<open>moveWaypoint(index, direction)\<close> is \<open>setWaypoints\<close> applied to the updater
  below. Only \<open>newIndex\<close> is tested against the bounds. The destructuring assignment
  evaluates its right-hand side first, then assigns \<open>reordered[index]\<close>, then
  \<open>reordered[newIndex]\<close>.
\<close>

definition moveWaypoint :: "int \<Rightarrow> int \<Rightarrow> 'a jsarray \<Rightarrow> 'a jsarray" where
  "moveWaypoint index direction prev =
     (let newIndex = index + direction in
      if newIndex < 0 \<or> newIndex \<ge> int (length prev) then prev
      else
        let reordered = prev;
            rhs0 = arr_get reordered newIndex;
            rhs1 = arr_get reordered index;
            reordered = arr_set reordered index rhs0;
            reordered = arr_set reordered newIndex rhs1
        in reordered)"

text \<open>\<open>clearRoute\<close> is \<open>setWaypoints([])\<close>.\<close>

definition clearRoute :: "'a jsarray \<Rightarrow> 'a jsarray" where
  "clearRoute prev = []"

subsection \<open>The bounding box\<close>

text \<open>
  After a batch, \<open>geocodeScenes\<close> computes the box of \<open>newWaypoints\<close> inline: the
  four variables start at the first waypoint's coordinate and \<open>forEach\<close> visits every
  waypoint, the first included, with four independent tests. \<open>newWaypoints[0]\<close> is
  read only under the guard \<open>newWaypoints.length > 0\<close>; on the empty list there is no
  box.
\<close>

record bounds =
  minLon :: number
  maxLon :: number
  minLat :: number
  maxLat :: number

definition visit :: "bounds \<Rightarrow> waypoint \<Rightarrow> bounds" where
  "visit b wp =
     (let (lon, lat) = coord wp;
          b = (if lt lon (minLon b) then b\<lparr>minLon := lon\<rparr> else b);
          b = (if gt lon (maxLon b) then b\<lparr>maxLon := lon\<rparr> else b);
          b = (if lt lat (minLat b) then b\<lparr>minLat := lat\<rparr> else b);
          b = (if gt lat (maxLat b) then b\<lparr>maxLat := lat\<rparr> else b)
      in b)"

fun boundingBox :: "waypoint list \<Rightarrow> bounds option" where
  "boundingBox [] = None"
| "boundingBox (w # ws) =
     Some (foldl visit
       \<lparr>minLon = fst (coord w), maxLon = fst (coord w),
        minLat = snd (coord w), maxLat = snd (coord w)\<rparr> (w # ws))"

text \<open>
  What the specification asks of the box: each bound is one of the values of its axis
  and is below (above) all of them, with the comparison \<open><=\<close> of the language.
\<close>

definition least :: "number \<Rightarrow> number list \<Rightarrow> bool" where
  "least m xs = (m \<in> set xs \<and> (\<forall>x \<in> set xs. le m x))"

definition greatest :: "number \<Rightarrow> number list \<Rightarrow> bool" where
  "greatest m xs = (m \<in> set xs \<and> (\<forall>x \<in> set xs. le x m))"

definition extrema :: "bounds \<Rightarrow> waypoint list \<Rightarrow> bool" where
  "extrema b ws =
     (least (minLon b) (map (\<lambda>w. fst (coord w)) ws)
      \<and> greatest (maxLon b) (map (\<lambda>w. fst (coord w)) ws)
      \<and> least (minLat b) (map (\<lambda>w. snd (coord w)) ws)
      \<and> greatest (maxLat b) (map (\<lambda>w. snd (coord w)) ws))"

text \<open>One test of the visit on one bound: each bound is a fold of its own over the values
  of its axis.\<close>

definition lower :: "number \<Rightarrow> number \<Rightarrow> number" where
  "lower m x = (if lt x m then x else m)"

definition upper :: "number \<Rightarrow> number \<Rightarrow> number" where
  "upper m x = (if gt x m then x else m)"

subsection \<open>Strings\<close>

text \<open>
  A string is the list of its code units, here the code units below 256. Of these the
  white space and line terminators that \<open>trim\<close> removes are TAB, LF, VT, FF, CR,
  SPACE and NBSP.
\<close>

definition is_space :: "char \<Rightarrow> bool" where
  "is_space c = (c \<in> set [CHR 0x09, CHR 0x0A, CHR 0x0B, CHR 0x0C, CHR 0x0D, CHR 0x20, CHR 0xA0])"

definition trim :: "string \<Rightarrow> string" where
  "trim s = rev (dropWhile is_space (rev (dropWhile is_space s)))"

text \<open>
  \<open>s.split(/\n+/)\<close>: every maximal run of line feeds is one separator. A line feed
  followed by another one continues the run; the last one of a run closes the piece before
  it. A separator at the start or at the end leaves an empty piece there, and the empty
  string splits into one empty piece.
\<close>

fun split_newlines :: "string \<Rightarrow> string list" where
  "split_newlines [] = [[]]"
| "split_newlines (c # cs) =
     (if c = CHR 0x0A then
        (case cs of
           [] \<Rightarrow> [] # split_newlines cs
         | d # _ \<Rightarrow> if d = CHR 0x0A then split_newlines cs else [] # split_newlines cs)
      else
        (case split_newlines cs of
           [] \<Rightarrow> [[c]]
         | piece # pieces \<Rightarrow> (c # piece) # pieces))"

text \<open>
  The names of a batch: \<open>sceneText.split(/\n+/).map((s) => s.trim()).filter(Boolean)\<close>;
  \<open>Boolean\<close> of a string is false for the empty string only.
\<close>

definition parseNames :: "string \<Rightarrow> string list" where
  "parseNames sceneText = filter (\<lambda>s. s \<noteq> []) (map trim (split_newlines sceneText))"

text \<open>
  The specification's reading of the input, to compare with: the lines of the text (a
  new line after every single line feed), each trimmed, the empty ones dropped.
\<close>

fun lines_of :: "string \<Rightarrow> string list" where
  "lines_of [] = [[]]"
| "lines_of (c # cs) =
     (if c = CHR 0x0A then [] # lines_of cs
      else (case lines_of cs of
              [] \<Rightarrow> [[c]]
            | line # lines \<Rightarrow> (c # line) # lines))"

definition spec_names :: "string \<Rightarrow> string list" where
  "spec_names input = filter (\<lambda>s. s \<noteq> []) (map trim (lines_of input))"

subsection \<open>The map widget and the page\<close>

text \<open>
  Of the MapLibre map the model keeps what the page sets on it: the terrain setting
  (\<open>null\<close> is \<open>None\<close>) and the calls of \<open>fitBounds\<close>, each with its two corners
  \<open>[[minLon, minLat], [maxLon, maxLat]]\<close> and its padding.
\<close>

record terrainSpec =
  source :: string
  exaggeration :: real

record mapInstance =
  terrain :: "terrainSpec option"
  fitBoundsCalls :: "(((number \<times> number) \<times> (number \<times> number)) \<times> nat) list"

text \<open>
  What the page does to the outside, in the order in which it happens: \<open>fetch\<close> is
  called with a URL; the \<open>await\<close> on that call is over and the loop goes on with its
  outcome; an alert is shown; an error is written to the console.
\<close>

datatype event = Requested string | Settled string | Alerted string | Logged string

definition isLookup :: "event \<Rightarrow> bool" where
  "isLookup e = (case e of Requested _ \<Rightarrow> True | Settled _ \<Rightarrow> True | _ \<Rightarrow> False)"

text \<open>
  The state of the page: the three pieces of React state that the handlers use, the ref
  to the map (\<open>null\<close> until the import of the library has resolved), and the effects
  on the outside: all of them in \<open>events\<close>, in order, and by kind the alerts shown,
  the URLs fetched and the errors written to the console.
\<close>

record page =
  sceneText :: string
  waypoints :: "waypoint jsarray"
  terrainEnabled :: bool
  mapRef :: "mapInstance option"
  alerts :: "string list"
  requests :: "string list"
  consoleErrors :: "string list"
  events :: "event list"

text \<open>The page as the \<open>useState\<close> and \<open>useRef\<close> initialisers leave it.\<close>

definition initialPage :: page where
  "initialPage =
     \<lparr>sceneText = [], waypoints = [], terrainEnabled = False, mapRef = None,
      alerts = [], requests = [], consoleErrors = [], events = []\<rparr>"

text \<open>
  The mount effect, once \<open>import('maplibre-gl')\<close> has resolved: the map is created
  with the style of the source, whose \<open>terrain\<close> is
  \<open>{ source: 'terrain', exaggeration: 1.5 }\<close>, and stored in \<open>mapRef\<close>.
\<close>

definition createMap :: "page \<Rightarrow> page" where
  "createMap s =
     s\<lparr>mapRef := Some \<lparr>terrain = Some \<lparr>source = ''terrain'', exaggeration = 1.5\<rparr>,
                        fitBoundsCalls = []\<rparr>\<rparr>"

text \<open>\<open>toggleTerrain\<close>: nothing without a map; else the flag decides what is set.\<close>

definition toggleTerrain :: "page \<Rightarrow> page" where
  "toggleTerrain s =
     (case mapRef s of
        None \<Rightarrow> s
      | Some m \<Rightarrow>
          let m = (if terrainEnabled s then m\<lparr>terrain := None\<rparr>
                   else m\<lparr>terrain := Some \<lparr>source = ''terrain'', exaggeration = 1.5\<rparr>\<rparr>)
          in s\<lparr>mapRef := Some m, terrainEnabled := \<not> terrainEnabled s\<rparr>)"

subsection \<open>Geocoding\<close>

text \<open>
  What one lookup can come to. \<open>fetch\<close> rejects (\<open>Rejected\<close>, with the message of
  the error), or resolves to a response with its \<open>ok\<close> flag and the outcome of
  \<open>res.json()\<close>: a rejection with its message, or the parsed data. Of the data the
  code asks whether it is an array and reads its first element: destructuring
  \<open>{ lat, lon }\<close> from \<open>null\<close> throws a TypeError, from any other value it reads the
  two properties, each of which may be \<open>undefined\<close> or any value of JSON. The type
  \<open>'v\<close> is the type of these property values.
\<close>

datatype 'v element = Null | Properties 'v 'v

datatype 'v json = NotArray | Array "'v element list"

datatype 'v fetched = Rejected string | Response bool "string + 'v json"

text \<open>
  The runtime: \<open>parseFloat\<close> on a property value, \<open>encodeURIComponent\<close>, the
  answer of the network to a URL (it may depend on how many requests went before), and
  the message of the TypeError of the engine. \<open>parseFloat\<close> converts its argument to
  a string first, and that conversion throws on an object with no primitive value (such
  as the JSON object \<open>{"toString": 0}\<close>): the result is the message of the error
  thrown (\<open>Inl\<close>) or the number. On the strings of the model, which have no lone
  surrogates, \<open>encodeURIComponent\<close> does not throw.
\<close>

record 'v runtime =
  parseFloat :: "'v \<Rightarrow> string + number"
  encodeURIComponent :: "string \<Rightarrow> string"
  fetch :: "nat \<Rightarrow> string \<Rightarrow> 'v fetched"
  typeErrorMessage :: string

definition searchUrl :: "'v runtime \<Rightarrow> string \<Rightarrow> string" where
  "searchUrl rt nm =
     ''https://nominatim.openstreetmap.org/search?q='' @ encodeURIComponent rt nm
       @ ''&format=json&limit=1''"

text \<open>The \<open>catch\<close> block: \<open>console.error(err)\<close>, then the alert.\<close>

definition caught :: "string \<Rightarrow> string \<Rightarrow> page \<Rightarrow> page" where
  "caught nm message s =
     s\<lparr>consoleErrors := consoleErrors s @ [message],
       alerts := alerts s @ [''Error geocoding '' @ nm @ '': '' @ message],
       events := events s @ [Logged message,
                              Alerted (''Error geocoding '' @ nm @ '': '' @ message)]\<rparr>"

definition notFound :: "string \<Rightarrow> page \<Rightarrow> page" where
  "notFound nm s =
     s\<lparr>alerts := alerts s @ [''Could not find location: '' @ nm],
       events := events s @ [Alerted (''Could not find location: '' @ nm)]\<rparr>"

text \<open>
  The body of the loop for one name, on the page and the array \<open>newWaypoints\<close>:
  \<open>fetch\<close> is called and awaited before anything else is done. The coordinate pushed
  is \<open>[parseFloat(lon), parseFloat(lat)]\<close>, with no test on it; \<open>parseFloat(lon)\<close>
  is evaluated first, and what either call throws is caught like every other error of
  the \<open>try\<close> block.
\<close>

definition geocodeName ::
  "'v runtime \<Rightarrow> string \<Rightarrow> page \<times> waypoint list \<Rightarrow> page \<times> waypoint list" where
  "geocodeName rt nm st =
     (let (s, newWaypoints) = st;
          url = searchUrl rt nm;
          res = fetch rt (length (requests s)) url;
          s = s\<lparr>requests := requests s @ [url],
                events := events s @ [Requested url, Settled url]\<rparr>
      in case res of
           Rejected message \<Rightarrow> (caught nm message s, newWaypoints)
         | Response ok body \<Rightarrow>
             if \<not> ok then (caught nm (''Geocoding failed for '' @ nm) s, newWaypoints)
             else (case body of
                     Inl message \<Rightarrow> (caught nm message s, newWaypoints)
                   | Inr NotArray \<Rightarrow> (notFound nm s, newWaypoints)
                   | Inr (Array []) \<Rightarrow> (notFound nm s, newWaypoints)
                   | Inr (Array (Null # _)) \<Rightarrow>
                       (caught nm (typeErrorMessage rt) s, newWaypoints)
                   | Inr (Array (Properties lat lon # _)) \<Rightarrow>
                       (case parseFloat rt lon of
                          Inl message \<Rightarrow> (caught nm message s, newWaypoints)
                        | Inr x \<Rightarrow>
                            (case parseFloat rt lat of
                               Inl message \<Rightarrow> (caught nm message s, newWaypoints)
                             | Inr y \<Rightarrow>
                                 (s, newWaypoints @ [\<lparr>name = nm, coord = (x, y)\<rparr>])))))"

fun geocodeLoop ::
  "'v runtime \<Rightarrow> string list \<Rightarrow> page \<times> waypoint list \<Rightarrow> page \<times> waypoint list" where
  "geocodeLoop rt [] st = st"
| "geocodeLoop rt (nm # names) st = geocodeLoop rt names (geocodeName rt nm st)"

text \<open>
  \<open>geocodeScenes\<close>: the early return on no names; the loop; then, when
  \<open>newWaypoints\<close> is not empty, the replacement of the waypoints and, with a map, the
  fit to the bounding box with padding 50. Of \<open>fitBounds\<close> the model keeps the call;
  it comes after \<open>setWaypoints\<close>, so what the widget does with the box does not reach
  the waypoints.
\<close>

definition geocodeScenes :: "'v runtime \<Rightarrow> page \<Rightarrow> page" where
  "geocodeScenes rt s =
     (let names = parseNames (sceneText s) in
      if length names = 0 then
        s\<lparr>alerts := alerts s @ [''Please enter one or more scene names to geocode.''],
          events := events s @ [Alerted ''Please enter one or more scene names to geocode.'']\<rparr>
      else
        let (s, newWaypoints) = geocodeLoop rt names (s, []) in
        if length newWaypoints > 0 then
          let s = s\<lparr>waypoints := map Some newWaypoints\<rparr> in
          (case mapRef s of
             None \<Rightarrow> s
           | Some m \<Rightarrow>
               (case boundingBox newWaypoints of
                  None \<Rightarrow> s
                | Some b \<Rightarrow>
                    s\<lparr>mapRef := Some (m\<lparr>fitBoundsCalls := fitBoundsCalls m
                          @ [(((minLon b, minLat b), (maxLon b, maxLat b)), 50)]\<rparr>)\<rparr>))
        else s)"

text \<open>
  What the claims about a batch speak of. The result found for a name, asked as the
  request number \<open>k\<close>: the two properties \<open>(lat, lon)\<close> of the first element, when
  the response is ok, parses, and is a non-empty array whose first element is not
  \<open>null\<close>. The coordinate parsed from a result, when \<open>parseFloat\<close> throws on
  neither property. A name succeeds when it has a result with a parsed coordinate, and
  \<open>hits\<close> are the waypoints of the names that succeed, in their order. The range that
  the specification gives to a coordinate.
\<close>

definition found :: "'v runtime \<Rightarrow> nat \<times> string \<Rightarrow> ('v \<times> 'v) option" where
  "found rt kn =
     (case fetch rt (fst kn) (searchUrl rt (snd kn)) of
        Response True (Inr (Array (Properties lat lon # _))) \<Rightarrow> Some (lat, lon)
      | _ \<Rightarrow> None)"

definition parsed :: "'v runtime \<Rightarrow> 'v \<times> 'v \<Rightarrow> (number \<times> number) option" where
  "parsed rt r =
     (case parseFloat rt (snd r) of
        Inl _ \<Rightarrow> None
      | Inr x \<Rightarrow> (case parseFloat rt (fst r) of Inl _ \<Rightarrow> None | Inr y \<Rightarrow> Some (x, y)))"

definition located :: "'v runtime \<Rightarrow> nat \<times> string \<Rightarrow> (number \<times> number) option" where
  "located rt kn = (case found rt kn of None \<Rightarrow> None | Some r \<Rightarrow> parsed rt r)"

definition hits :: "'v runtime \<Rightarrow> nat \<Rightarrow> string list \<Rightarrow> waypoint list" where
  "hits rt k names =
     concat (map (\<lambda>kn. case located rt kn of
                          None \<Rightarrow> []
                        | Some c \<Rightarrow> [\<lparr>name = snd kn, coord = c\<rparr>])
       (enumerate k names))"

definition inRange :: "number \<times> number \<Rightarrow> bool" where
  "inRange c =
     (le (Fin (-180)) (fst c) \<and> le (fst c) (Fin 180)
      \<and> le (Fin (-90)) (snd c) \<and> le (snd c) (Fin 90))"

subsection \<open>The edge middleware\<close>

text \<open>
  A thrown value is an \<open>Error\<close> with its message, or another value: one that
  \<open>String\<close> converts to a text, or one on which \<open>String\<close> throws in its turn.
  \<open>errorText\<close> is \<open>err instanceof Error ? err.message : String(err)\<close>, with what
  it throws as \<open>Inl\<close>.
\<close>

datatype thrown = Error string | Value string | Opaque thrown

definition errorText :: "thrown \<Rightarrow> thrown + string" where
  "errorText err =
     (case err of
        Error message \<Rightarrow> Inr message
      | Value shown \<Rightarrow> Inr shown
      | Opaque err' \<Rightarrow> Inl err')"

text \<open>
  Of a request the middleware reads headers only: \<open>headers req h\<close> is
  \<open>req.headers.get(h)\<close>, \<open>None\<close> for \<open>null\<close>. A middleware answers with a
  response: \<open>Next\<close> is \<open>NextResponse.next()\<close>, which lets the request continue to
  its route as it is, with the headers set on the response afterwards; the other kinds
  of response end or divert the request.
\<close>

record request =
  headers :: "string \<Rightarrow> string option"

datatype response = Next "(string \<times> string) list" | Redirect string | Rewrite string | Json string

text \<open>
  The framework, as far as a fault inside the middleware can come from it: whether the
  \<open>k\<close>-th call of \<open>NextResponse.next()\<close> throws, and whether \<open>headers.set\<close>
  throws on a name and a value (it does on a value that is not a header value). The
  value that \<open>headers.set\<close> stores is the value given without its leading and
  trailing HTTP white space: TAB, LF, CR and SPACE.
\<close>

definition isHttpSpace :: "char \<Rightarrow> bool" where
  "isHttpSpace c = (c \<in> set [CHR 0x09, CHR 0x0A, CHR 0x0D, CHR 0x20])"

definition normalizeValue :: "string \<Rightarrow> string" where
  "normalizeValue v = rev (dropWhile isHttpSpace (rev (dropWhile isHttpSpace v)))"

record framework =
  nextThrows :: "nat \<Rightarrow> thrown option"
  setThrows :: "string \<Rightarrow> string \<Rightarrow> thrown option"

text \<open>
  \<open>middleware\<close> of \<open>src/middleware.ts\<close>: the pass-through in a \<open>try\<close>; the
  \<open>catch\<close> block makes a second pass-through, computes the text of the error and
  sets the header \<open>x-middleware-error\<close> to it. Nothing catches what the \<open>catch\<close>
  block throws. What the function throws is \<open>Inl\<close>.
\<close>

definition middleware :: "framework \<Rightarrow> request \<Rightarrow> thrown + response" where
  "middleware fw req =
     (case nextThrows fw 0 of
        None \<Rightarrow> Inr (Next [])
      | Some err \<Rightarrow>
          (case nextThrows fw 1 of
             Some err' \<Rightarrow> Inl err'
           | None \<Rightarrow>
               (case errorText err of
                  Inl err' \<Rightarrow> Inl err'
                | Inr v \<Rightarrow>
                    (case setThrows fw ''x-middleware-error'' v of
                       Some err' \<Rightarrow> Inl err'
                     | None \<Rightarrow> Inr (Next [(''x-middleware-error'', normalizeValue v)])))))"

text \<open>
  \<open>s.split(sep)\<close> for a separator of one character, and \<open>a || b\<close> on values that
  are a string, \<open>null\<close> or \<open>undefined\<close> (the last two are \<open>None\<close>): the empty
  string is falsy as they are.
\<close>

fun split_on :: "char \<Rightarrow> string \<Rightarrow> string list" where
  "split_on sep [] = [[]]"
| "split_on sep (c # cs) =
     (if c = sep then [] # split_on sep cs
      else (case split_on sep cs of
              [] \<Rightarrow> [[c]]
            | piece # pieces \<Rightarrow> (c # piece) # pieces))"

definition truthy :: "string option \<Rightarrow> bool" where
  "truthy v = (case v of None \<Rightarrow> False | Some s \<Rightarrow> s \<noteq> [])"

definition or_else :: "string option \<Rightarrow> string option \<Rightarrow> string option" where
  "or_else a b = (if truthy a then a else b)"

text \<open>
  \<open>getClientInfo\<close> of the revision with the client information. The optional chain
  \<open>get(...)?.split(',')[0]?.trim()\<close> stops at a missing header; \<open>split\<close> always
  returns at least one piece.
\<close>

record geo =
  city :: "string option"
  country :: "string option"
  region :: "string option"
  latitude :: "string option"
  longitude :: "string option"

definition getClientInfo :: "request \<Rightarrow> string option \<times> geo" where
  "getClientInfo req =
     (let forwarded =
            (case headers req ''x-forwarded-for'' of
               None \<Rightarrow> None
             | Some h \<Rightarrow>
                 (case split_on CHR '','' h of
                    [] \<Rightarrow> None
                  | first # _ \<Rightarrow> Some (trim first)));
          ip = or_else (or_else forwarded (headers req ''x-real-ip'')) None;
          geo = \<lparr>city = or_else (headers req ''x-vercel-ip-city'') None,
                 country = or_else (headers req ''x-vercel-ip-country'') None,
                 region = or_else (headers req ''x-vercel-ip-country-region'') None,
                 latitude = or_else (headers req ''x-vercel-ip-latitude'') None,
                 longitude = or_else (headers req ''x-vercel-ip-longitude'') None\<rparr>
      in (ip, geo))"

text \<open>
  \<open>middleware\<close> of that revision: the client information is computed and not used,
  then the pass-through, with no \<open>try\<close> around it.
\<close>

definition middleware_clientInfo :: "framework \<Rightarrow> request \<Rightarrow> thrown + response" where
  "middleware_clientInfo fw req =
     (let (ip, geo) = getClientInfo req in
      case nextThrows fw 0 of
        None \<Rightarrow> Inr (Next [])
      | Some err \<Rightarrow> Inl err)"

text \<open>
  The first entry of a comma-separated header and a header that is present and not
  empty, as the claim about the forwarding IP speaks of them.
\<close>

definition firstEntry :: "string \<Rightarrow> string" where
  "firstEntry h = trim (takeWhile (\<lambda>c. c \<noteq> CHR '','') h)"

definition nonEmptyHeader :: "request \<Rightarrow> string \<Rightarrow> string option" where
  "nonEmptyHeader req h =
     (case headers req h of None \<Rightarrow> None | Some v \<Rightarrow> if v = [] then None else Some v)"

subsection \<open>A sample runtime\<close>

text \<open>
  A runtime to evaluate the batch on. The property values are strings,
  \<open>undefined\<close>, or an object with no primitive value; \<open>parseFloat\<close> and
  \<open>encodeURIComponent\<close> are tables of their values on the strings used below. The
  network knows four places and answers every other search with an empty array.
\<close>

datatype sampleValue = Str string | Undefined | NoPrimitive

definition sampleParseFloat :: "sampleValue \<Rightarrow> string + number" where
  "sampleParseFloat v =
     (case v of
        Str t \<Rightarrow>
          Inr (if t = ''48.875'' then Fin 48.875
               else if t = ''2.25'' then Fin 2.25
               else if t = ''95'' then Fin 95
               else if t = ''200'' then Fin 200
               else if t = ''Infinity'' then PosInf
               else NaN)
      | Undefined \<Rightarrow> Inr NaN
      | NoPrimitive \<Rightarrow> Inl ''Cannot convert object to primitive value'')"

definition sampleEncode :: "string \<Rightarrow> string" where
  "sampleEncode s =
     (if s = ''Eiffel Tower'' then ''Eiffel%20Tower''
      else if s = ''Louvre Museum'' then ''Louvre%20Museum''
      else s)"

definition sampleRuntime ::
  "(nat \<Rightarrow> string \<Rightarrow> sampleValue fetched) \<Rightarrow> sampleValue runtime" where
  "sampleRuntime net =
     \<lparr>parseFloat = sampleParseFloat, encodeURIComponent = sampleEncode, fetch = net,
      typeErrorMessage = ''Cannot destructure property lat of null''\<rparr>"

definition sampleNet :: "nat \<Rightarrow> string \<Rightarrow> sampleValue fetched" where
  "sampleNet k url =
     (if url = ''https://nominatim.openstreetmap.org/search?q=Eiffel%20Tower&format=json&limit=1''
      then Response True (Inr (Array [Properties (Str ''48.875'') (Str ''2.25'')]))
      else if url = ''https://nominatim.openstreetmap.org/search?q=Nowhere&format=json&limit=1''
      then Response True (Inr (Array [Properties (Str ''95'') (Str ''200'')]))
      else if url = ''https://nominatim.openstreetmap.org/search?q=Void&format=json&limit=1''
      then Response True (Inr (Array [Properties Undefined (Str ''Infinity'')]))
      else if url = ''https://nominatim.openstreetmap.org/search?q=Broken&format=json&limit=1''
      then Response True (Inr (Array [Properties NoPrimitive (Str ''2.25'')]))
      else Response True (Inr (Array [])))"

text \<open>
  Requests given by the list of their headers, and two frameworks with a fault: one
  whose first pass-through call throws, one whose every pass-through call throws.
\<close>

definition sampleRequest :: "(string \<times> string) list \<Rightarrow> request" where
  "sampleRequest hs = \<lparr>headers = map_of hs\<rparr>"

definition faultOnce :: framework where
  "faultOnce = \<lparr>nextThrows = (\<lambda>k. if k = 0 then Some (Error '' boom '') else None),
                 setThrows = (\<lambda>h v. None)\<rparr>"

definition faultAlways :: framework where
  "faultAlways = \<lparr>nextThrows = (\<lambda>k. Some (Error ''boom'')), setThrows = (\<lambda>h v. None)\<rparr>"

subsection \<open>Reordering\<close>

lemma moveWaypoint_noop:
  "index + direction < 0 \<or> index + direction \<ge> int (length prev)
    \<Longrightarrow> moveWaypoint index direction prev = prev"
  by (simp add: moveWaypoint_def)

lemma moveWaypoint_swap:
  assumes "0 \<le> index" "index < int (length prev)"
    and "0 \<le> index + direction" "index + direction < int (length prev)"
  shows "moveWaypoint index direction prev =
    prev[nat index := prev ! nat (index + direction),
         nat (index + direction) := prev ! nat index]"
  using assms by (simp add: moveWaypoint_def arr_get_def arr_set_def Let_def)

lemma swap_back:
  assumes "i < length xs" "j < length xs"
  shows "(xs[i := xs ! j, j := xs ! i])[j := (xs[i := xs ! j, j := xs ! i]) ! i,
            i := (xs[i := xs ! j, j := xs ! i]) ! j] = xs"
  using assms by (auto simp: list_eq_iff_nth_eq nth_list_update)

text \<open>
  C5. When the target index \<open>index + direction\<close> is below 0 or at or after the length,
  \<open>moveWaypoint\<close> returns its input, whatever the index and the direction.
\<close>

theorem moveWaypoint_out_of_bounds_unchanged:
  assumes "index + direction < 0 \<or> index + direction \<ge> int (length prev)"
  shows "moveWaypoint index direction prev = prev"
  using assms by (rule moveWaypoint_noop)

theorem moveWaypoint_out_of_bounds_unchanged_witness:
  "moveWaypoint 0 (-1) [Some ''A'', Some ''B'', Some ''C''] = [Some ''A'', Some ''B'', Some ''C'']
   \<and> moveWaypoint 2 1 [Some ''A'', Some ''B'', Some ''C''] = [Some ''A'', Some ''B'', Some ''C'']"
  using moveWaypoint_out_of_bounds_unchanged [of 0 "-1" "[Some ''A'', Some ''B'', Some ''C'']"]
    moveWaypoint_out_of_bounds_unchanged [of 2 1 "[Some ''A'', Some ''B'', Some ''C'']"]
  by simp

text \<open>
  C4. For an index \<open>i\<close> and a direction \<open>d\<close> of -1 or +1 with \<open>i\<close> and \<open>i + d\<close>
  both in bounds, \<open>moveWaypoint i d\<close> followed by \<open>moveWaypoint (i + d) (- d)\<close> gives
  back the original sequence.
\<close>

theorem moveWaypoint_inverse:
  assumes "0 \<le> i" "i < int (length prev)"
    and "d = -1 \<or> d = 1"
    and "0 \<le> i + d" "i + d < int (length prev)"
  shows "moveWaypoint (i + d) (- d) (moveWaypoint i d prev) = prev"
proof -
  let ?mid = "prev[nat i := prev ! nat (i + d), nat (i + d) := prev ! nat i]"
  have first: "moveWaypoint i d prev = ?mid"
    using assms by (simp add: moveWaypoint_swap)
  have len: "length ?mid = length prev" by simp
  have second: "moveWaypoint (i + d) (- d) ?mid =
      ?mid[nat (i + d) := ?mid ! nat i, nat i := ?mid ! nat (i + d)]"
    using moveWaypoint_swap [of "i + d" ?mid "- d"] assms len by simp
  have "nat i < length prev" "nat (i + d) < length prev"
    using assms by simp_all
  then have "?mid[nat (i + d) := ?mid ! nat i, nat i := ?mid ! nat (i + d)] = prev"
    by (rule swap_back)
  with first second show ?thesis by simp
qed

theorem moveWaypoint_inverse_witness:
  "moveWaypoint (1 + (-1)) (- (-1)) (moveWaypoint 1 (-1) [Some ''A'', Some ''B'', Some ''C''])
     = [Some ''A'', Some ''B'', Some ''C'']"
  using moveWaypoint_inverse [of 1 "[Some ''A'', Some ''B'', Some ''C'']" "-1"]
  by simp

text \<open>
  C10, as amended. The claim is for every index; the function tests only the target
  index, so an index outside the array with a target inside it writes outside the
  elements. For an index inside the array and every integer direction the result has the
  length and the elements (as a multiset) of the input: it is the input, or the input
  with the elements at \<open>index\<close> and \<open>index + direction\<close> exchanged.
\<close>

theorem moveWaypoint_permutes:
  assumes "0 \<le> index" "index < int (length prev)"
  shows "length (moveWaypoint index direction prev) = length prev
    \<and> mset (moveWaypoint index direction prev) = mset prev
    \<and> (moveWaypoint index direction prev = prev
       \<or> (0 \<le> index + direction \<and> index + direction < int (length prev)
          \<and> moveWaypoint index direction prev =
            prev[nat index := prev ! nat (index + direction),
                 nat (index + direction) := prev ! nat index]))"
proof (cases "index + direction < 0 \<or> index + direction \<ge> int (length prev)")
  case True
  then show ?thesis by (simp add: moveWaypoint_noop)
next
  case False
  then have inb: "0 \<le> index + direction" "index + direction < int (length prev)"
    by simp_all
  have eq: "moveWaypoint index direction prev =
      prev[nat index := prev ! nat (index + direction),
           nat (index + direction) := prev ! nat index]"
    using assms inb by (rule moveWaypoint_swap)
  have "nat index < length prev" "nat (index + direction) < length prev"
    using assms inb by simp_all
  then have "mset (prev[nat index := prev ! nat (index + direction),
           nat (index + direction) := prev ! nat index]) = mset prev"
    by (simp add: mset_swap)
  with eq inb show ?thesis by simp
qed

theorem moveWaypoint_permutes_witness:
  "moveWaypoint 0 2 [Some ''A'', Some ''B'', Some ''C''] = [Some ''C'', Some ''B'', Some ''A'']
   \<and> length (moveWaypoint 0 2 [Some ''A'', Some ''B'', Some ''C'']) = 3
   \<and> mset (moveWaypoint 0 2 [Some ''A'', Some ''B'', Some ''C''])
       = mset [Some ''A'', Some ''B'', Some ''C'']"
  using moveWaypoint_permutes [of 0 "[Some ''A'', Some ''B'', Some ''C'']" 2]
  by (simp add: moveWaypoint_def arr_get_def arr_set_def)

text \<open>
  The claim as stated fails: index 3 of a three-element list with direction -1 has the
  target 2, which is in bounds; the assignment to \<open>reordered[3]\<close> extends the array and
  \<open>reordered[2]\<close> becomes \<open>undefined\<close>.
\<close>

theorem moveWaypoint_index_out_of_bounds_counterexample:
  "moveWaypoint 3 (-1) [Some ''A'', Some ''B'', Some ''C'']
     = [Some ''A'', Some ''B'', None, Some ''C'']
   \<and> length (moveWaypoint 3 (-1) [Some ''A'', Some ''B'', Some ''C''])
       \<noteq> length [Some ''A'', Some ''B'', Some ''C'']
   \<and> mset (moveWaypoint 3 (-1) [Some ''A'', Some ''B'', Some ''C''])
       \<noteq> mset [Some ''A'', Some ''B'', Some ''C'']"
  by (simp add: moveWaypoint_def arr_get_def arr_set_def)

subsection \<open>The bounding box is the box of the extrema\<close>

lemma le_refl: "a \<noteq> NaN \<Longrightarrow> le a a"
  by (cases a) (simp_all add: le_def)

lemma lt_irrefl: "\<not> lt a a"
  by (cases a) simp_all

lemma lt_imp_le: "lt a b \<Longrightarrow> le a b"
  by (cases a; cases b) (simp_all add: le_def)

lemma not_lt_imp_le: "\<not> lt a b \<Longrightarrow> a \<noteq> NaN \<Longrightarrow> b \<noteq> NaN \<Longrightarrow> le b a"
  by (simp add: le_def)

lemma le_trans: "le a b \<Longrightarrow> le b c \<Longrightarrow> le a c"
  by (cases a; cases b; cases c) (simp_all add: le_def)

lemma visit_components:
  "minLon (visit b wp) = lower (minLon b) (fst (coord wp))"
  "maxLon (visit b wp) = upper (maxLon b) (fst (coord wp))"
  "minLat (visit b wp) = lower (minLat b) (snd (coord wp))"
  "maxLat (visit b wp) = upper (maxLat b) (snd (coord wp))"
  by (simp_all add: visit_def lower_def upper_def Let_def split: prod.splits)

lemma foldl_visit_components:
  "minLon (foldl visit b ws) = foldl lower (minLon b) (map (\<lambda>w. fst (coord w)) ws)"
  "maxLon (foldl visit b ws) = foldl upper (maxLon b) (map (\<lambda>w. fst (coord w)) ws)"
  "minLat (foldl visit b ws) = foldl lower (minLat b) (map (\<lambda>w. snd (coord w)) ws)"
  "maxLat (foldl visit b ws) = foldl upper (maxLat b) (map (\<lambda>w. snd (coord w)) ws)"
  by (induction ws arbitrary: b) (simp_all add: visit_components)

lemma foldl_lower:
  assumes "m \<noteq> NaN" "NaN \<notin> set xs"
  shows "foldl lower m xs \<in> insert m (set xs)
    \<and> le (foldl lower m xs) m \<and> (\<forall>x \<in> set xs. le (foldl lower m xs) x)"
  using assms
proof (induction xs arbitrary: m)
  case Nil
  then show ?case by (simp add: le_refl)
next
  case (Cons x xs)
  let ?m = "lower m x"
  from Cons.prems have x: "x \<noteq> NaN" and xs: "NaN \<notin> set xs" by auto
  have m': "?m \<noteq> NaN" using Cons.prems x by (simp add: lower_def)
  have step: "le ?m m" "le ?m x" "?m = m \<or> ?m = x"
    using Cons.prems x by (auto simp: lower_def lt_imp_le le_refl not_lt_imp_le)
  from Cons.IH [OF m' xs]
  have ih: "foldl lower ?m xs \<in> insert ?m (set xs)" "le (foldl lower ?m xs) ?m"
    "\<forall>y \<in> set xs. le (foldl lower ?m xs) y" by simp_all
  have "le (foldl lower ?m xs) m" "le (foldl lower ?m xs) x"
    using ih(2) step(1,2) by (blast intro: le_trans)+
  moreover have "foldl lower ?m xs \<in> insert m (set (x # xs))"
    using ih(1) step(3) by auto
  ultimately show ?case using ih(3) by simp
qed

lemma foldl_upper:
  assumes "m \<noteq> NaN" "NaN \<notin> set xs"
  shows "foldl upper m xs \<in> insert m (set xs)
    \<and> le m (foldl upper m xs) \<and> (\<forall>x \<in> set xs. le x (foldl upper m xs))"
  using assms
proof (induction xs arbitrary: m)
  case Nil
  then show ?case by (simp add: le_refl)
next
  case (Cons x xs)
  let ?m = "upper m x"
  from Cons.prems have x: "x \<noteq> NaN" and xs: "NaN \<notin> set xs" by auto
  have m': "?m \<noteq> NaN" using Cons.prems x by (simp add: upper_def)
  have step: "le m ?m" "le x ?m" "?m = m \<or> ?m = x"
    using Cons.prems x by (auto simp: upper_def gt_def lt_imp_le le_refl not_lt_imp_le)
  from Cons.IH [OF m' xs]
  have ih: "foldl upper ?m xs \<in> insert ?m (set xs)" "le ?m (foldl upper ?m xs)"
    "\<forall>y \<in> set xs. le y (foldl upper ?m xs)" by simp_all
  have "le m (foldl upper ?m xs)" "le x (foldl upper ?m xs)"
    using ih(2) step(1,2) by (blast intro: le_trans)+
  moreover have "foldl upper ?m xs \<in> insert m (set (x # xs))"
    using ih(1) step(3) by auto
  ultimately show ?case using ih(3) by simp
qed

lemma least_fold:
  assumes "NaN \<notin> set (x # xs)"
  shows "least (foldl lower x (x # xs)) (x # xs)"
proof -
  have x: "x \<noteq> NaN" and all: "NaN \<notin> set (x # xs)" using assms by auto
  from foldl_lower [OF x all] show ?thesis
    unfolding least_def by auto
qed

lemma greatest_fold:
  assumes "NaN \<notin> set (x # xs)"
  shows "greatest (foldl upper x (x # xs)) (x # xs)"
proof -
  have x: "x \<noteq> NaN" and all: "NaN \<notin> set (x # xs)" using assms by auto
  from foldl_upper [OF x all] show ?thesis
    unfolding greatest_def by auto
qed

lemma boundingBox_extrema:
  assumes "NaN \<notin> set (map (\<lambda>w. fst (coord w)) (w # ws))"
    and "NaN \<notin> set (map (\<lambda>w. snd (coord w)) (w # ws))"
  shows "\<exists>b. boundingBox (w # ws) = Some b \<and> extrema b (w # ws)"
proof -
  let ?b = "foldl visit
       \<lparr>minLon = fst (coord w), maxLon = fst (coord w),
        minLat = snd (coord w), maxLat = snd (coord w)\<rparr> (w # ws)"
  have lon: "NaN \<notin> set (fst (coord w) # map (\<lambda>w. fst (coord w)) ws)"
    and lat: "NaN \<notin> set (snd (coord w) # map (\<lambda>w. snd (coord w)) ws)"
    using assms by simp_all
  have "least (minLon ?b) (map (\<lambda>w. fst (coord w)) (w # ws))"
    using least_fold [OF lon] by (simp only: foldl_visit_components) simp
  moreover have "greatest (maxLon ?b) (map (\<lambda>w. fst (coord w)) (w # ws))"
    using greatest_fold [OF lon] by (simp only: foldl_visit_components) simp
  moreover have "least (minLat ?b) (map (\<lambda>w. snd (coord w)) (w # ws))"
    using least_fold [OF lat] by (simp only: foldl_visit_components) simp
  moreover have "greatest (maxLat ?b) (map (\<lambda>w. snd (coord w)) (w # ws))"
    using greatest_fold [OF lat] by (simp only: foldl_visit_components) simp
  ultimately have "extrema ?b (w # ws)" by (simp only: extrema_def)
  then show ?thesis by simp
qed

lemma boundingBox_single:
  "boundingBox [w] = Some \<lparr>minLon = fst (coord w), maxLon = fst (coord w),
      minLat = snd (coord w), maxLat = snd (coord w)\<rparr>"
  by (simp add: visit_def gt_def lt_irrefl split: prod.splits)

lemma boundingBox_sample:
  "boundingBox [\<lparr>name = ''A'', coord = (Fin 0, Fin 0)\<rparr>,
      \<lparr>name = ''B'', coord = (Fin 5, Fin 10)\<rparr>,
      \<lparr>name = ''C'', coord = (Fin (-2), Fin 3)\<rparr>]
    = Some \<lparr>minLon = Fin (-2), maxLon = Fin 5, minLat = Fin 0, maxLat = Fin 10\<rparr>"
  by (simp add: visit_def gt_def)

text \<open>
  C3, as amended. For every non-empty list of waypoints none of whose coordinates is NaN
  the box is the box of the componentwise minima and maxima; on (0,0), (5,10), (-2,3) it
  is minLon = -2, maxLon = 5, minLat = 0, maxLat = 10; on a single point, whatever its
  coordinate, both bounds of each axis are that point's value.
\<close>

theorem boundingBox_correct:
  "(ws \<noteq> [] \<and> NaN \<notin> set (map (\<lambda>w. fst (coord w)) ws)
      \<and> NaN \<notin> set (map (\<lambda>w. snd (coord w)) ws)
     \<longrightarrow> (\<exists>b. boundingBox ws = Some b \<and> extrema b ws))
   \<and> boundingBox [\<lparr>name = ''A'', coord = (Fin 0, Fin 0)\<rparr>,
        \<lparr>name = ''B'', coord = (Fin 5, Fin 10)\<rparr>,
        \<lparr>name = ''C'', coord = (Fin (-2), Fin 3)\<rparr>]
      = Some \<lparr>minLon = Fin (-2), maxLon = Fin 5, minLat = Fin 0, maxLat = Fin 10\<rparr>
   \<and> (\<exists>b. boundingBox [w] = Some b \<and> minLon b = maxLon b \<and> minLat b = maxLat b
        \<and> minLon b = fst (coord w) \<and> minLat b = snd (coord w))"
proof (intro conjI impI)
  assume a: "ws \<noteq> [] \<and> NaN \<notin> set (map (\<lambda>w. fst (coord w)) ws)
      \<and> NaN \<notin> set (map (\<lambda>w. snd (coord w)) ws)"
  then obtain v vs where ws: "ws = v # vs" by (cases ws) auto
  with a show "\<exists>b. boundingBox ws = Some b \<and> extrema b ws"
    using boundingBox_extrema [of v vs] by simp
next
  show "boundingBox [\<lparr>name = ''A'', coord = (Fin 0, Fin 0)\<rparr>,
        \<lparr>name = ''B'', coord = (Fin 5, Fin 10)\<rparr>,
        \<lparr>name = ''C'', coord = (Fin (-2), Fin 3)\<rparr>]
      = Some \<lparr>minLon = Fin (-2), maxLon = Fin 5, minLat = Fin 0, maxLat = Fin 10\<rparr>"
    by (rule boundingBox_sample)
next
  show "\<exists>b. boundingBox [w] = Some b \<and> minLon b = maxLon b \<and> minLat b = maxLat b
        \<and> minLon b = fst (coord w) \<and> minLat b = snd (coord w)"
    by (simp only: boundingBox_single) simp
qed

theorem boundingBox_correct_witness:
  "extrema \<lparr>minLon = Fin (-2), maxLon = Fin 5, minLat = Fin 0, maxLat = Fin 10\<rparr>
     [\<lparr>name = ''A'', coord = (Fin 0, Fin 0)\<rparr>,
      \<lparr>name = ''B'', coord = (Fin 5, Fin 10)\<rparr>,
      \<lparr>name = ''C'', coord = (Fin (-2), Fin 3)\<rparr>]"
  using boundingBox_correct [of "[\<lparr>name = ''A'', coord = (Fin 0, Fin 0)\<rparr>,
      \<lparr>name = ''B'', coord = (Fin 5, Fin 10)\<rparr>,
      \<lparr>name = ''C'', coord = (Fin (-2), Fin 3)\<rparr>]"]
  by (simp add: visit_def gt_def)

text \<open>
  The claim as stated fails on a list with a NaN coordinate, which \<open>parseFloat\<close>
  returns for a result without a \<open>lon\<close>: every comparison with NaN is false, so a
  NaN in first place stays in the box and a NaN in a later place is passed over. The
  same two points in the two orders give two different boxes, and neither has the least
  longitude as its minLon.
\<close>

theorem boundingBox_NaN_counterexample:
  "boundingBox [\<lparr>name = ''A'', coord = (Fin 5, Fin 1)\<rparr>, \<lparr>name = ''B'', coord = (NaN, Fin 2)\<rparr>]
     = Some \<lparr>minLon = Fin 5, maxLon = Fin 5, minLat = Fin 1, maxLat = Fin 2\<rparr>
   \<and> boundingBox [\<lparr>name = ''B'', coord = (NaN, Fin 2)\<rparr>, \<lparr>name = ''A'', coord = (Fin 5, Fin 1)\<rparr>]
     = Some \<lparr>minLon = NaN, maxLon = NaN, minLat = Fin 1, maxLat = Fin 2\<rparr>
   \<and> \<not> extrema \<lparr>minLon = Fin 5, maxLon = Fin 5, minLat = Fin 1, maxLat = Fin 2\<rparr>
       [\<lparr>name = ''A'', coord = (Fin 5, Fin 1)\<rparr>, \<lparr>name = ''B'', coord = (NaN, Fin 2)\<rparr>]
   \<and> \<not> extrema \<lparr>minLon = NaN, maxLon = NaN, minLat = Fin 1, maxLat = Fin 2\<rparr>
       [\<lparr>name = ''B'', coord = (NaN, Fin 2)\<rparr>, \<lparr>name = ''A'', coord = (Fin 5, Fin 1)\<rparr>]"
  by (auto simp: visit_def gt_def extrema_def least_def greatest_def le_def)

subsection \<open>The geocoding batch\<close>

lemma geocodeName_result:
  "snd (geocodeName rt nm (s, acc)) =
     acc @ (case located rt (length (requests s), nm) of
              None \<Rightarrow> [] | Some c \<Rightarrow> [\<lparr>name = nm, coord = c\<rparr>])"
  by (simp add: geocodeName_def located_def found_def parsed_def Let_def caught_def notFound_def
      split: fetched.splits sum.splits json.splits list.splits element.splits bool.splits)

lemma geocodeName_page:
  "requests (fst (geocodeName rt nm (s, acc))) = requests s @ [searchUrl rt nm]"
  "waypoints (fst (geocodeName rt nm (s, acc))) = waypoints s"
  "mapRef (fst (geocodeName rt nm (s, acc))) = mapRef s"
  "sceneText (fst (geocodeName rt nm (s, acc))) = sceneText s"
  "terrainEnabled (fst (geocodeName rt nm (s, acc))) = terrainEnabled s"
  by (simp_all add: geocodeName_def Let_def caught_def notFound_def
      split: fetched.splits sum.splits json.splits list.splits element.splits)

lemma geocodeName_alerts:
  "length (alerts (fst (geocodeName rt nm (s, acc)))) =
     length (alerts s) + (case located rt (length (requests s), nm) of None \<Rightarrow> 1 | Some c \<Rightarrow> 0)"
  by (simp add: geocodeName_def located_def found_def parsed_def Let_def caught_def notFound_def
      split: fetched.splits sum.splits json.splits list.splits element.splits bool.splits)

lemma geocodeName_lookups:
  "filter isLookup (events (fst (geocodeName rt nm (s, acc)))) =
     filter isLookup (events s) @ [Requested (searchUrl rt nm), Settled (searchUrl rt nm)]"
  by (simp add: geocodeName_def Let_def caught_def notFound_def isLookup_def
      split: fetched.splits sum.splits json.splits list.splits element.splits)

lemma hits_Cons:
  "hits rt k (nm # names) =
     (case located rt (k, nm) of None \<Rightarrow> [] | Some c \<Rightarrow> [\<lparr>name = nm, coord = c\<rparr>])
       @ hits rt (Suc k) names"
  by (simp add: hits_def split: option.splits)

lemma geocodeLoop_result:
  "snd (geocodeLoop rt names (s, acc)) = acc @ hits rt (length (requests s)) names"
proof (induction names arbitrary: s acc)
  case Nil
  then show ?case by (simp add: hits_def)
next
  case (Cons nm names)
  obtain s' acc' where step: "geocodeName rt nm (s, acc) = (s', acc')"
    by (cases "geocodeName rt nm (s, acc)")
  have s': "requests s' = requests s @ [searchUrl rt nm]"
    using geocodeName_page(1) [of rt nm s acc] step by simp
  have acc': "acc' = acc @ (case located rt (length (requests s), nm) of None \<Rightarrow> []
      | Some c \<Rightarrow> [\<lparr>name = nm, coord = c\<rparr>])"
    using geocodeName_result [of rt nm s acc] step by simp
  show ?case
    using Cons.IH [of s' acc'] step s' acc' by (simp add: hits_Cons)
qed

lemma geocodeLoop_page:
  "requests (fst (geocodeLoop rt names (s, acc))) = requests s @ map (searchUrl rt) names
   \<and> waypoints (fst (geocodeLoop rt names (s, acc))) = waypoints s
   \<and> mapRef (fst (geocodeLoop rt names (s, acc))) = mapRef s
   \<and> sceneText (fst (geocodeLoop rt names (s, acc))) = sceneText s
   \<and> terrainEnabled (fst (geocodeLoop rt names (s, acc))) = terrainEnabled s"
proof (induction names arbitrary: s acc)
  case Nil
  show ?case by simp
next
  case (Cons nm names)
  obtain s' acc' where step: "geocodeName rt nm (s, acc) = (s', acc')"
    by (cases "geocodeName rt nm (s, acc)")
  have s': "requests s' = requests s @ [searchUrl rt nm]" "waypoints s' = waypoints s"
    "mapRef s' = mapRef s" "sceneText s' = sceneText s" "terrainEnabled s' = terrainEnabled s"
    using geocodeName_page [of rt nm s acc] step by simp_all
  show ?case using Cons.IH [of s' acc'] step s' by simp
qed

lemma geocodeLoop_alerts:
  "length (alerts (fst (geocodeLoop rt names (s, acc)))) + length (hits rt (length (requests s)) names)
     = length (alerts s) + length names"
proof (induction names arbitrary: s acc)
  case Nil
  show ?case by (simp add: hits_def)
next
  case (Cons nm names)
  obtain s' acc' where step: "geocodeName rt nm (s, acc) = (s', acc')"
    by (cases "geocodeName rt nm (s, acc)")
  have s': "requests s' = requests s @ [searchUrl rt nm]"
    using geocodeName_page(1) [of rt nm s acc] step by simp
  have al: "length (alerts s') = length (alerts s)
      + (case located rt (length (requests s), nm) of None \<Rightarrow> 1 | Some c \<Rightarrow> 0)"
    using geocodeName_alerts [of rt nm s acc] step by simp
  show ?case using Cons.IH [of s' acc'] step s' al
    by (simp add: hits_Cons split: option.splits)
qed

lemma geocodeLoop_lookups:
  "filter isLookup (events (fst (geocodeLoop rt names (s, acc)))) =
     filter isLookup (events s)
       @ concat (map (\<lambda>nm. [Requested (searchUrl rt nm), Settled (searchUrl rt nm)]) names)"
proof (induction names arbitrary: s acc)
  case Nil
  show ?case by simp
next
  case (Cons nm names)
  obtain s' acc' where step: "geocodeName rt nm (s, acc) = (s', acc')"
    by (cases "geocodeName rt nm (s, acc)")
  have s': "filter isLookup (events s') =
      filter isLookup (events s) @ [Requested (searchUrl rt nm), Settled (searchUrl rt nm)]"
    using geocodeName_lookups [of rt nm s acc] step by simp
  show ?case using Cons.IH [of s' acc'] step s' by simp
qed

lemma geocodeScenes_waypoints:
  "waypoints (geocodeScenes rt s) =
     (if hits rt (length (requests s)) (parseNames (sceneText s)) = [] then waypoints s
      else map Some (hits rt (length (requests s)) (parseNames (sceneText s))))"
proof -
  let ?names = "parseNames (sceneText s)"
  obtain s' ws where loop: "geocodeLoop rt ?names (s, []) = (s', ws)"
    by (cases "geocodeLoop rt ?names (s, [])")
  have ws: "ws = hits rt (length (requests s)) ?names"
    using geocodeLoop_result [of rt ?names s "[]"] loop by simp
  have s': "waypoints s' = waypoints s"
    using geocodeLoop_page [of rt ?names s "[]"] loop by simp
  show ?thesis
  proof (cases "?names = []")
    case True
    then show ?thesis by (simp add: geocodeScenes_def hits_def)
  next
    case False
    then show ?thesis using loop ws s'
      by (simp add: geocodeScenes_def Let_def split: option.splits)
  qed
qed

lemma geocodeScenes_requests:
  "requests (geocodeScenes rt s) = requests s @ map (searchUrl rt) (parseNames (sceneText s))"
proof -
  let ?names = "parseNames (sceneText s)"
  obtain s' ws where loop: "geocodeLoop rt ?names (s, []) = (s', ws)"
    by (cases "geocodeLoop rt ?names (s, [])")
  have s': "requests s' = requests s @ map (searchUrl rt) ?names"
    using geocodeLoop_page [of rt ?names s "[]"] loop by simp
  show ?thesis
  proof (cases "?names = []")
    case True
    then show ?thesis by (simp add: geocodeScenes_def)
  next
    case False
    then show ?thesis using loop s'
      by (simp add: geocodeScenes_def Let_def split: option.splits)
  qed
qed

lemma geocodeScenes_lookups:
  "filter isLookup (events (geocodeScenes rt s)) =
     filter isLookup (events s)
       @ concat (map (\<lambda>nm. [Requested (searchUrl rt nm), Settled (searchUrl rt nm)])
           (parseNames (sceneText s)))"
proof -
  let ?names = "parseNames (sceneText s)"
  obtain s' ws where loop: "geocodeLoop rt ?names (s, []) = (s', ws)"
    by (cases "geocodeLoop rt ?names (s, [])")
  have s': "filter isLookup (events s') = filter isLookup (events s)
       @ concat (map (\<lambda>nm. [Requested (searchUrl rt nm), Settled (searchUrl rt nm)]) ?names)"
    using geocodeLoop_lookups [of rt ?names s "[]"] loop by simp
  show ?thesis
  proof (cases "?names = []")
    case True
    then show ?thesis by (simp add: geocodeScenes_def isLookup_def)
  next
    case False
    then show ?thesis using loop s'
      by (simp add: geocodeScenes_def Let_def split: option.splits)
  qed
qed

lemma geocodeScenes_alerts:
  "parseNames (sceneText s) \<noteq> [] \<Longrightarrow>
   length (alerts (geocodeScenes rt s)) + length (hits rt (length (requests s)) (parseNames (sceneText s)))
     = length (alerts s) + length (parseNames (sceneText s))"
proof -
  assume ne: "parseNames (sceneText s) \<noteq> []"
  let ?names = "parseNames (sceneText s)"
  obtain s' ws where loop: "geocodeLoop rt ?names (s, []) = (s', ws)"
    by (cases "geocodeLoop rt ?names (s, [])")
  have s': "length (alerts s') + length (hits rt (length (requests s)) ?names)
     = length (alerts s) + length ?names"
    using geocodeLoop_alerts [of rt ?names s "[]"] loop by simp
  have "alerts (geocodeScenes rt s) = alerts s'"
    using ne loop by (simp add: geocodeScenes_def Let_def split: option.splits)
  with s' show ?thesis by simp
qed

lemma trim_Nil: "trim [] = []"
  by (simp add: trim_def)

lemma filter_trim:
  "filter (\<lambda>s. s \<noteq> []) (map trim (filter (\<lambda>s. s \<noteq> []) xs)) = filter (\<lambda>s. s \<noteq> []) (map trim xs)"
  by (induction xs) (simp_all add: trim_Nil)

lemma split_newlines_run: "\<exists>ps. split_newlines (CHR 0x0A # cs) = [] # ps"
  by (induction cs) (simp_all split: list.splits)

lemma split_newlines_lines_of:
  "\<exists>p ps qs. split_newlines s = p # ps \<and> lines_of s = p # qs
     \<and> filter (\<lambda>s. s \<noteq> []) ps = filter (\<lambda>s. s \<noteq> []) qs"
proof (induction s)
  case Nil
  show ?case by simp
next
  case (Cons c cs)
  then obtain p ps qs where ih: "split_newlines cs = p # ps" "lines_of cs = p # qs"
    "filter (\<lambda>s. s \<noteq> []) ps = filter (\<lambda>s. s \<noteq> []) qs" by blast
  show ?case
  proof (cases "c = CHR 0x0A")
    case False
    with ih show ?thesis by simp
  next
    case True
    show ?thesis
    proof (cases cs)
      case Nil
      with True show ?thesis by simp
    next
      case (Cons d ds)
      show ?thesis
      proof (cases "d = CHR 0x0A")
        case False
        with True Cons ih show ?thesis by simp
      next
        case d: True
        from split_newlines_run [of ds] Cons d ih(1) have "p = []" by auto
        with True Cons d ih show ?thesis by simp
      qed
    qed
  qed
qed

lemma parseNames_spec: "parseNames input = spec_names input"
proof -
  obtain p ps qs where r: "split_newlines input = p # ps" "lines_of input = p # qs"
    "filter (\<lambda>s. s \<noteq> []) ps = filter (\<lambda>s. s \<noteq> []) qs"
    using split_newlines_lines_of by blast
  have "filter (\<lambda>s. s \<noteq> []) (map trim ps) = filter (\<lambda>s. s \<noteq> []) (map trim qs)"
    using filter_trim [of ps] filter_trim [of qs] r(3) by simp
  with r show ?thesis by (simp add: parseNames_def spec_names_def)
qed

lemma parseNames_sample:
  "parseNames (''Eiffel Tower'' @ [CHR 0x0A, CHR 0x0A] @ ''Louvre Museum'')
     = [''Eiffel Tower'', ''Louvre Museum'']"
  by (simp add: parseNames_def trim_def is_space_def)

lemma sample_events:
  "events (geocodeScenes (sampleRuntime sampleNet)
      (initialPage\<lparr>sceneText := ''Atlantis'' @ [CHR 0x0A, CHR 0x0A] @ ''Eiffel Tower''\<rparr>))
   = [Requested ''https://nominatim.openstreetmap.org/search?q=Atlantis&format=json&limit=1'',
      Settled ''https://nominatim.openstreetmap.org/search?q=Atlantis&format=json&limit=1'',
      Alerted ''Could not find location: Atlantis'',
      Requested ''https://nominatim.openstreetmap.org/search?q=Eiffel%20Tower&format=json&limit=1'',
      Settled ''https://nominatim.openstreetmap.org/search?q=Eiffel%20Tower&format=json&limit=1'']"
  by (simp add: geocodeScenes_def parseNames_def trim_def is_space_def initialPage_def
      geocodeName_def searchUrl_def sampleRuntime_def sampleEncode_def sampleNet_def
      sampleParseFloat_def notFound_def Let_def)

lemma geocodeName_block:
  "\<exists>r. filter isLookup r = []
     \<and> events (fst (geocodeName rt nm (s, acc))) =
         events s @ Requested (searchUrl rt nm) # Settled (searchUrl rt nm) # r"
  by (simp add: geocodeName_def Let_def caught_def notFound_def isLookup_def
      split: fetched.splits sum.splits json.splits list.splits element.splits)

lemma geocodeLoop_blocks:
  "\<exists>rs. length rs = length names \<and> (\<forall>r \<in> set rs. filter isLookup r = [])
     \<and> events (fst (geocodeLoop rt names (s, acc))) =
         events s @ concat (map (\<lambda>(nm, r). Requested (searchUrl rt nm) # Settled (searchUrl rt nm) # r)
                             (zip names rs))"
proof (induction names arbitrary: s acc)
  case Nil
  show ?case by simp
next
  case (Cons nm names)
  obtain s' acc' where step: "geocodeName rt nm (s, acc) = (s', acc')"
    by (cases "geocodeName rt nm (s, acc)")
  obtain r where r: "filter isLookup r = []"
    "events s' = events s @ Requested (searchUrl rt nm) # Settled (searchUrl rt nm) # r"
    using geocodeName_block [of rt nm s acc] step by auto
  obtain rs where rs: "length rs = length names" "\<forall>r \<in> set rs. filter isLookup r = []"
    "events (fst (geocodeLoop rt names (s', acc'))) =
         events s' @ concat (map (\<lambda>(nm, r). Requested (searchUrl rt nm) # Settled (searchUrl rt nm) # r)
                             (zip names rs))"
    using Cons.IH [of s' acc'] by blast
  have "length (r # rs) = length (nm # names)" using rs(1) by simp
  moreover have "\<forall>x \<in> set (r # rs). filter isLookup x = []" using r(1) rs(2) by simp
  moreover have "events (fst (geocodeLoop rt (nm # names) (s, acc))) =
         events s @ concat (map (\<lambda>(nm, r). Requested (searchUrl rt nm) # Settled (searchUrl rt nm) # r)
                             (zip (nm # names) (r # rs)))"
    using step r(2) rs(3) by simp
  ultimately show ?case by blast
qed

lemma geocodeScenes_blocks:
  assumes "parseNames (sceneText s) \<noteq> []"
  shows "\<exists>rs. length rs = length (parseNames (sceneText s))
     \<and> (\<forall>r \<in> set rs. filter isLookup r = [])
     \<and> events (geocodeScenes rt s) =
         events s @ concat (map (\<lambda>(nm, r). Requested (searchUrl rt nm) # Settled (searchUrl rt nm) # r)
                             (zip (parseNames (sceneText s)) rs))"
proof -
  have "events (geocodeScenes rt s) = events (fst (geocodeLoop rt (parseNames (sceneText s)) (s, [])))"
    using assms by (simp add: geocodeScenes_def Let_def split: option.splits prod.splits)
  then show ?thesis using geocodeLoop_blocks [of "parseNames (sceneText s)" rt s "[]"] by simp
qed

text \<open>
  C7. The names of a batch are the lines of the input, trimmed, without the empty ones.
  The batch fetches the search URL of every name, in the order of the names, and one
  after the other: in the order of the events every request is followed by the end of
  its own \<open>await\<close> before the next request is made. On the input
  \<open>"Eiffel Tower\n\nLouvre Museum"\<close> these are two requests, Eiffel Tower first.
\<close>

theorem geocode_input_and_lookups:
  "(\<forall>input. parseNames input = spec_names input)
   \<and> requests (geocodeScenes rt s) = requests s @ map (searchUrl rt) (parseNames (sceneText s))
   \<and> filter isLookup (events (geocodeScenes rt s)) =
       filter isLookup (events s)
         @ concat (map (\<lambda>nm. [Requested (searchUrl rt nm), Settled (searchUrl rt nm)])
             (parseNames (sceneText s)))
   \<and> (parseNames (sceneText s) \<noteq> [] \<longrightarrow>
        (\<exists>rs. length rs = length (parseNames (sceneText s))
           \<and> (\<forall>r \<in> set rs. filter isLookup r = [])
           \<and> events (geocodeScenes rt s) =
               events s @ concat (map (\<lambda>(nm, r). Requested (searchUrl rt nm)
                                      # Settled (searchUrl rt nm) # r)
                                   (zip (parseNames (sceneText s)) rs))))
   \<and> parseNames (''Eiffel Tower'' @ [CHR 0x0A, CHR 0x0A] @ ''Louvre Museum'')
       = [''Eiffel Tower'', ''Louvre Museum'']
   \<and> requests (geocodeScenes rt
         (s\<lparr>sceneText := ''Eiffel Tower'' @ [CHR 0x0A, CHR 0x0A] @ ''Louvre Museum''\<rparr>))
       = requests s @ [searchUrl rt ''Eiffel Tower'', searchUrl rt ''Louvre Museum'']
   \<and> filter isLookup (events (geocodeScenes rt
         (s\<lparr>sceneText := ''Eiffel Tower'' @ [CHR 0x0A, CHR 0x0A] @ ''Louvre Museum''\<rparr>)))
       = filter isLookup (events s)
           @ [Requested (searchUrl rt ''Eiffel Tower''), Settled (searchUrl rt ''Eiffel Tower''),
              Requested (searchUrl rt ''Louvre Museum''), Settled (searchUrl rt ''Louvre Museum'')]"
proof (intro conjI allI)
  fix input show "parseNames input = spec_names input" by (rule parseNames_spec)
next
  show "requests (geocodeScenes rt s) = requests s @ map (searchUrl rt) (parseNames (sceneText s))"
    by (rule geocodeScenes_requests)
next
  show "filter isLookup (events (geocodeScenes rt s)) =
       filter isLookup (events s)
         @ concat (map (\<lambda>nm. [Requested (searchUrl rt nm), Settled (searchUrl rt nm)])
             (parseNames (sceneText s)))"
    by (rule geocodeScenes_lookups)
next
  show "parseNames (sceneText s) \<noteq> [] \<longrightarrow>
        (\<exists>rs. length rs = length (parseNames (sceneText s))
           \<and> (\<forall>r \<in> set rs. filter isLookup r = [])
           \<and> events (geocodeScenes rt s) =
               events s @ concat (map (\<lambda>(nm, r). Requested (searchUrl rt nm)
                                      # Settled (searchUrl rt nm) # r)
                                   (zip (parseNames (sceneText s)) rs)))"
    using geocodeScenes_blocks [of s rt] by blast
next
  show "parseNames (''Eiffel Tower'' @ [CHR 0x0A, CHR 0x0A] @ ''Louvre Museum'')
       = [''Eiffel Tower'', ''Louvre Museum'']"
    by (rule parseNames_sample)
next
  show "requests (geocodeScenes rt
         (s\<lparr>sceneText := ''Eiffel Tower'' @ [CHR 0x0A, CHR 0x0A] @ ''Louvre Museum''\<rparr>))
       = requests s @ [searchUrl rt ''Eiffel Tower'', searchUrl rt ''Louvre Museum'']"
    by (simp only: geocodeScenes_requests) (simp add: parseNames_sample del: append.simps)
next
  show "filter isLookup (events (geocodeScenes rt
         (s\<lparr>sceneText := ''Eiffel Tower'' @ [CHR 0x0A, CHR 0x0A] @ ''Louvre Museum''\<rparr>)))
       = filter isLookup (events s)
           @ [Requested (searchUrl rt ''Eiffel Tower''), Settled (searchUrl rt ''Eiffel Tower''),
              Requested (searchUrl rt ''Louvre Museum''), Settled (searchUrl rt ''Louvre Museum'')]"
    by (simp only: geocodeScenes_lookups) (simp add: parseNames_sample del: append.simps)
qed

theorem geocode_input_and_lookups_witness:
  "parseNames (sceneText (initialPage\<lparr>sceneText := ''Atlantis'' @ [CHR 0x0A, CHR 0x0A] @ ''Eiffel Tower''\<rparr>))
     = [''Atlantis'', ''Eiffel Tower'']
   \<and> (\<exists>rs. length rs = 2
        \<and> events (geocodeScenes (sampleRuntime sampleNet)
             (initialPage\<lparr>sceneText := ''Atlantis'' @ [CHR 0x0A, CHR 0x0A] @ ''Eiffel Tower''\<rparr>))
          = concat (map (\<lambda>(nm, r). Requested (searchUrl (sampleRuntime sampleNet) nm)
                                   # Settled (searchUrl (sampleRuntime sampleNet) nm) # r)
                      (zip [''Atlantis'', ''Eiffel Tower''] rs)))
   \<and> events (geocodeScenes (sampleRuntime sampleNet)
        (initialPage\<lparr>sceneText := ''Atlantis'' @ [CHR 0x0A, CHR 0x0A] @ ''Eiffel Tower''\<rparr>))
     = [Requested ''https://nominatim.openstreetmap.org/search?q=Atlantis&format=json&limit=1'',
        Settled ''https://nominatim.openstreetmap.org/search?q=Atlantis&format=json&limit=1'',
        Alerted ''Could not find location: Atlantis'',
        Requested ''https://nominatim.openstreetmap.org/search?q=Eiffel%20Tower&format=json&limit=1'',
        Settled ''https://nominatim.openstreetmap.org/search?q=Eiffel%20Tower&format=json&limit=1'']"
proof -
  let ?s = "initialPage\<lparr>sceneText := ''Atlantis'' @ [CHR 0x0A, CHR 0x0A] @ ''Eiffel Tower''\<rparr>"
  let ?rt = "sampleRuntime sampleNet"
  have names: "parseNames (sceneText ?s) = [''Atlantis'', ''Eiffel Tower'']"
    by (simp add: parseNames_def trim_def is_space_def)
  have ev: "events ?s = []" by (simp add: initialPage_def)
  from geocode_input_and_lookups [of ?rt ?s]
  have "parseNames (sceneText ?s) \<noteq> [] \<longrightarrow>
        (\<exists>rs. length rs = length (parseNames (sceneText ?s))
           \<and> (\<forall>r \<in> set rs. filter isLookup r = [])
           \<and> events (geocodeScenes ?rt ?s) =
               events ?s @ concat (map (\<lambda>(nm, r). Requested (searchUrl ?rt nm)
                                      # Settled (searchUrl ?rt nm) # r)
                                   (zip (parseNames (sceneText ?s)) rs)))"
    by blast
  then obtain rs where len: "length rs = length (parseNames (sceneText ?s))"
    and evs: "events (geocodeScenes ?rt ?s) =
       events ?s @ concat (map (\<lambda>(nm, r). Requested (searchUrl ?rt nm) # Settled (searchUrl ?rt nm) # r)
                           (zip (parseNames (sceneText ?s)) rs))"
    using names by auto
  have "length rs = 2" using len names by simp
  moreover have "events (geocodeScenes ?rt ?s)
          = concat (map (\<lambda>(nm, r). Requested (searchUrl ?rt nm) # Settled (searchUrl ?rt nm) # r)
                      (zip [''Atlantis'', ''Eiffel Tower''] rs))"
    using evs by (simp only: names ev append_Nil)
  ultimately have "\<exists>rs. length rs = 2
        \<and> events (geocodeScenes ?rt ?s)
          = concat (map (\<lambda>(nm, r). Requested (searchUrl ?rt nm) # Settled (searchUrl ?rt nm) # r)
                      (zip [''Atlantis'', ''Eiffel Tower''] rs))"
    by blast
  then show ?thesis using names sample_events by blast
qed

text \<open>
  C8. With no name left after splitting and trimming, \<open>geocodeScenes\<close> shows one
  alert and returns: no request is made, the waypoints and the map stay as they are.
\<close>

theorem geocodeScenes_no_names:
  assumes "parseNames (sceneText s) = []"
  shows "alerts (geocodeScenes rt s)
      = alerts s @ [''Please enter one or more scene names to geocode.'']
    \<and> requests (geocodeScenes rt s) = requests s
    \<and> waypoints (geocodeScenes rt s) = waypoints s
    \<and> mapRef (geocodeScenes rt s) = mapRef s"
  using assms by (simp add: geocodeScenes_def)

theorem geocodeScenes_no_names_witness:
  "alerts (geocodeScenes (sampleRuntime (\<lambda>k url. Rejected ''offline''))
      (initialPage\<lparr>sceneText := ''  '' @ [CHR 0x0A, CHR 0x0A] @ '' ''\<rparr>))
     = [''Please enter one or more scene names to geocode.'']
   \<and> requests (geocodeScenes (sampleRuntime (\<lambda>k url. Rejected ''offline''))
      (initialPage\<lparr>sceneText := ''  '' @ [CHR 0x0A, CHR 0x0A] @ '' ''\<rparr>)) = []
   \<and> waypoints (geocodeScenes (sampleRuntime (\<lambda>k url. Rejected ''offline''))
      (initialPage\<lparr>sceneText := ''  '' @ [CHR 0x0A, CHR 0x0A] @ '' ''\<rparr>)) = []"
  using geocodeScenes_no_names [of "initialPage\<lparr>sceneText := ''  '' @ [CHR 0x0A, CHR 0x0A] @ '' ''\<rparr>"
      "sampleRuntime (\<lambda>k url. Rejected ''offline'')"]
  by (simp add: parseNames_def trim_def is_space_def initialPage_def)

lemma in_optional:
  "w \<in> set (case opt of None \<Rightarrow> [] | Some r \<Rightarrow> [g r]) \<longleftrightarrow> (\<exists>r. opt = Some r \<and> w = g r)"
  by (cases opt) auto

lemma in_hits:
  "w \<in> set (hits rt k names) \<longleftrightarrow>
     (\<exists>kn \<in> set (enumerate k names). \<exists>c. located rt kn = Some c \<and> w = \<lparr>name = snd kn, coord = c\<rparr>)"
  by (simp add: hits_def in_optional) metis

lemma located_iff:
  "located rt kn = Some c \<longleftrightarrow>
     (\<exists>lat lon. found rt kn = Some (lat, lon)
        \<and> parseFloat rt lon = Inr (fst c) \<and> parseFloat rt lat = Inr (snd c))"
  by (cases c) (auto simp: located_def parsed_def split: option.splits sum.splits)

lemma names_of_hits:
  "map name (hits rt k names) = map snd (filter (\<lambda>kn. located rt kn \<noteq> None) (enumerate k names))"
proof (induction names arbitrary: k)
  case Nil
  show ?case by (simp add: hits_def)
next
  case (Cons nm names)
  show ?case using Cons.IH [of "Suc k"]
    by (simp add: hits_Cons split: option.splits)
qed

lemma geocodeName_located:
  "located rt (length (requests s), nm) = Some c \<Longrightarrow>
   geocodeName rt nm (s, acc) =
     (s\<lparr>requests := requests s @ [searchUrl rt nm],
        events := events s @ [Requested (searchUrl rt nm), Settled (searchUrl rt nm)]\<rparr>,
      acc @ [\<lparr>name = nm, coord = c\<rparr>])"
  by (auto simp: geocodeName_def located_def found_def parsed_def Let_def
      split: fetched.splits sum.splits json.splits list.splits element.splits bool.splits)

lemma geocodeName_empty_parts:
  assumes "fetch rt (length (requests s)) (searchUrl rt nm) = Response True (Inr (Array []))"
  shows "snd (geocodeName rt nm (s, acc)) = acc"
    and "alerts (fst (geocodeName rt nm (s, acc))) = alerts s @ [''Could not find location: '' @ nm]"
  using assms by (simp_all add: geocodeName_def notFound_def Let_def)

lemma geocodeName_located_parts:
  assumes "located rt (length (requests s), nm) = Some c"
  shows "snd (geocodeName rt nm (s, acc)) = acc @ [\<lparr>name = nm, coord = c\<rparr>]"
    and "alerts (fst (geocodeName rt nm (s, acc))) = alerts s"
  using assms by (simp_all add: geocodeName_located)

lemma geocodeScenes_result_of_loop:
  assumes "parseNames (sceneText s) \<noteq> []"
  shows "alerts (geocodeScenes rt s) = alerts (fst (geocodeLoop rt (parseNames (sceneText s)) (s, [])))"
  using assms by (simp add: geocodeScenes_def Let_def split: option.splits prod.splits)

lemma geocodeScenes_hit_then_empty:
  assumes "parseNames (sceneText s) = [a, b]"
    and "located rt (length (requests s), a) = Some c"
    and "fetch rt (Suc (length (requests s))) (searchUrl rt b) = Response True (Inr (Array []))"
  shows "waypoints (geocodeScenes rt s) = [Some \<lparr>name = a, coord = c\<rparr>]
    \<and> alerts (geocodeScenes rt s) = alerts s @ [''Could not find location: '' @ b]"
proof -
  obtain s1 w1 where one: "geocodeName rt a (s, []) = (s1, w1)"
    by (cases "geocodeName rt a (s, [])")
  have w1: "w1 = [\<lparr>name = a, coord = c\<rparr>]" and a1: "alerts s1 = alerts s"
    using geocodeName_located_parts [OF assms(2), of "[]"] one by simp_all
  have r1: "requests s1 = requests s @ [searchUrl rt a]"
    using geocodeName_page(1) [of rt a s "[]"] one by simp
  have miss: "fetch rt (length (requests s1)) (searchUrl rt b) = Response True (Inr (Array []))"
    using assms(3) r1 by simp
  obtain s2 w2 where two: "geocodeName rt b (s1, w1) = (s2, w2)"
    by (cases "geocodeName rt b (s1, w1)")
  have w2: "w2 = w1" and a2: "alerts s2 = alerts s1 @ [''Could not find location: '' @ b]"
    using geocodeName_empty_parts [OF miss, of w1] two by simp_all
  have loop: "geocodeLoop rt [a, b] (s, []) = (s2, w2)"
    by (simp only: geocodeLoop.simps one two)
  have hits: "hits rt (length (requests s)) [a, b] = w2"
    using geocodeLoop_result [of rt "[a, b]" s "[]"] loop by simp
  have "waypoints (geocodeScenes rt s) = map Some w2"
    using hits w1 w2 by (simp add: geocodeScenes_waypoints assms(1))
  moreover have "alerts (geocodeScenes rt s) = alerts s2"
    using geocodeScenes_result_of_loop [of s rt] loop by (simp only: assms(1)) simp
  ultimately show ?thesis using w1 w2 a1 a2 by simp
qed

lemma geocodeScenes_empty_then_hit:
  assumes "parseNames (sceneText s) = [a, b]"
    and "located rt (Suc (length (requests s)), b) = Some c"
    and "fetch rt (length (requests s)) (searchUrl rt a) = Response True (Inr (Array []))"
  shows "waypoints (geocodeScenes rt s) = [Some \<lparr>name = b, coord = c\<rparr>]
    \<and> alerts (geocodeScenes rt s) = alerts s @ [''Could not find location: '' @ a]"
proof -
  obtain s1 w1 where one: "geocodeName rt a (s, []) = (s1, w1)"
    by (cases "geocodeName rt a (s, [])")
  have w1: "w1 = []" and a1: "alerts s1 = alerts s @ [''Could not find location: '' @ a]"
    using geocodeName_empty_parts [OF assms(3), of "[]"] one by simp_all
  have r1: "requests s1 = requests s @ [searchUrl rt a]"
    using geocodeName_page(1) [of rt a s "[]"] one by simp
  have hit: "located rt (length (requests s1), b) = Some c"
    using assms(2) r1 by simp
  obtain s2 w2 where two: "geocodeName rt b (s1, w1) = (s2, w2)"
    by (cases "geocodeName rt b (s1, w1)")
  have w2: "w2 = w1 @ [\<lparr>name = b, coord = c\<rparr>]" and a2: "alerts s2 = alerts s1"
    using geocodeName_located_parts [OF hit, of w1] two by simp_all
  have loop: "geocodeLoop rt [a, b] (s, []) = (s2, w2)"
    by (simp only: geocodeLoop.simps one two)
  have hits: "hits rt (length (requests s)) [a, b] = w2"
    using geocodeLoop_result [of rt "[a, b]" s "[]"] loop by simp
  have "waypoints (geocodeScenes rt s) = map Some w2"
    using hits w1 w2 by (simp add: geocodeScenes_waypoints assms(1))
  moreover have "alerts (geocodeScenes rt s) = alerts s2"
    using geocodeScenes_result_of_loop [of s rt] loop by (simp only: assms(1)) simp
  ultimately show ?thesis using w1 w2 a1 a2 by simp
qed

text \<open>
  C2, as amended. The claim is for every batch; the source replaces the waypoints only
  when \<open>newWaypoints\<close> is not empty. A name succeeds when its lookup finds a result
  and \<open>parseFloat\<close> returns on both of its properties. A name that fails does not
  stop the batch: when at least one name succeeds the waypoints after the batch are those
  of the names that succeeded, in the order of the input, and when none does they are the
  waypoints from before. Every name that fails adds one alert. Of two names of which one
  finds an empty array and the other succeeds, the waypoints are the one of the name that
  succeeded and the one alert added names the other.
\<close>

theorem geocodeScenes_store:
  fixes rt :: "'v runtime" and s :: page
  defines "names \<equiv> parseNames (sceneText s)"
    and "k \<equiv> length (requests s)"
    and "s' \<equiv> geocodeScenes rt s"
  shows "(hits rt k names \<noteq> [] \<longrightarrow> waypoints s' = map Some (hits rt k names))
    \<and> (hits rt k names = [] \<longrightarrow> waypoints s' = waypoints s)
    \<and> map name (hits rt k names)
        = map snd (filter (\<lambda>kn. located rt kn \<noteq> None) (enumerate k names))
    \<and> (names \<noteq> [] \<longrightarrow>
         length (alerts s') + length (hits rt k names) = length (alerts s) + length names)
    \<and> (\<forall>a b c. names = [a, b] \<and> located rt (k, a) = Some c
          \<and> fetch rt (Suc k) (searchUrl rt b) = Response True (Inr (Array []))
         \<longrightarrow> waypoints s' = [Some \<lparr>name = a, coord = c\<rparr>]
            \<and> alerts s' = alerts s @ [''Could not find location: '' @ b])
    \<and> (\<forall>a b c. names = [a, b] \<and> located rt (Suc k, b) = Some c
          \<and> fetch rt k (searchUrl rt a) = Response True (Inr (Array []))
         \<longrightarrow> waypoints s' = [Some \<lparr>name = b, coord = c\<rparr>]
            \<and> alerts s' = alerts s @ [''Could not find location: '' @ a])"
proof (intro conjI)
  show "hits rt k names \<noteq> [] \<longrightarrow> waypoints s' = map Some (hits rt k names)"
    unfolding names_def k_def s'_def by (simp add: geocodeScenes_waypoints)
  show "hits rt k names = [] \<longrightarrow> waypoints s' = waypoints s"
    unfolding names_def k_def s'_def by (simp add: geocodeScenes_waypoints)
  show "map name (hits rt k names)
        = map snd (filter (\<lambda>kn. located rt kn \<noteq> None) (enumerate k names))"
    by (rule names_of_hits)
  show "names \<noteq> [] \<longrightarrow>
      length (alerts s') + length (hits rt k names) = length (alerts s) + length names"
    unfolding names_def k_def s'_def using geocodeScenes_alerts [of s rt] by blast
  show "\<forall>a b c. names = [a, b] \<and> located rt (k, a) = Some c
          \<and> fetch rt (Suc k) (searchUrl rt b) = Response True (Inr (Array []))
         \<longrightarrow> waypoints s' = [Some \<lparr>name = a, coord = c\<rparr>]
            \<and> alerts s' = alerts s @ [''Could not find location: '' @ b]"
    unfolding names_def k_def s'_def using geocodeScenes_hit_then_empty [of s _ _ rt] by blast
  show "\<forall>a b c. names = [a, b] \<and> located rt (Suc k, b) = Some c
          \<and> fetch rt k (searchUrl rt a) = Response True (Inr (Array []))
         \<longrightarrow> waypoints s' = [Some \<lparr>name = b, coord = c\<rparr>]
            \<and> alerts s' = alerts s @ [''Could not find location: '' @ a]"
    unfolding names_def k_def s'_def using geocodeScenes_empty_then_hit [of s _ _ rt] by blast
qed

lemma sample_batch:
  "geocodeScenes (sampleRuntime sampleNet)
     (initialPage\<lparr>sceneText := ''Eiffel Tower'' @ [CHR 0x0A] @ ''Broken'' @ [CHR 0x0A] @ ''Atlantis''\<rparr>)
   = initialPage\<lparr>sceneText := ''Eiffel Tower'' @ [CHR 0x0A] @ ''Broken'' @ [CHR 0x0A] @ ''Atlantis'',
       waypoints := [Some \<lparr>name = ''Eiffel Tower'', coord = (Fin 2.25, Fin 48.875)\<rparr>],
       alerts := [''Error geocoding Broken: Cannot convert object to primitive value'',
          ''Could not find location: Atlantis''],
       requests := [''https://nominatim.openstreetmap.org/search?q=Eiffel%20Tower&format=json&limit=1'',
          ''https://nominatim.openstreetmap.org/search?q=Broken&format=json&limit=1'',
          ''https://nominatim.openstreetmap.org/search?q=Atlantis&format=json&limit=1''],
       consoleErrors := [''Cannot convert object to primitive value''],
       events := [
          Requested ''https://nominatim.openstreetmap.org/search?q=Eiffel%20Tower&format=json&limit=1'',
          Settled ''https://nominatim.openstreetmap.org/search?q=Eiffel%20Tower&format=json&limit=1'',
          Requested ''https://nominatim.openstreetmap.org/search?q=Broken&format=json&limit=1'',
          Settled ''https://nominatim.openstreetmap.org/search?q=Broken&format=json&limit=1'',
          Logged ''Cannot convert object to primitive value'',
          Alerted ''Error geocoding Broken: Cannot convert object to primitive value'',
          Requested ''https://nominatim.openstreetmap.org/search?q=Atlantis&format=json&limit=1'',
          Settled ''https://nominatim.openstreetmap.org/search?q=Atlantis&format=json&limit=1'',
          Alerted ''Could not find location: Atlantis'']\<rparr>"
  by (simp add: geocodeScenes_def parseNames_def trim_def is_space_def initialPage_def
      geocodeName_def searchUrl_def sampleRuntime_def sampleEncode_def sampleNet_def
      sampleParseFloat_def notFound_def caught_def Let_def)

theorem geocodeScenes_store_witness:
  "waypoints (geocodeScenes (sampleRuntime sampleNet)
      (initialPage\<lparr>sceneText := ''Eiffel Tower'' @ [CHR 0x0A] @ ''Atlantis''\<rparr>))
     = [Some \<lparr>name = ''Eiffel Tower'', coord = (Fin 2.25, Fin 48.875)\<rparr>]
   \<and> alerts (geocodeScenes (sampleRuntime sampleNet)
      (initialPage\<lparr>sceneText := ''Eiffel Tower'' @ [CHR 0x0A] @ ''Atlantis''\<rparr>))
     = [''Could not find location: Atlantis'']"
proof -
  let ?rt = "sampleRuntime sampleNet"
  let ?s = "initialPage\<lparr>sceneText := ''Eiffel Tower'' @ [CHR 0x0A] @ ''Atlantis''\<rparr>"
  have names: "parseNames (sceneText ?s) = [''Eiffel Tower'', ''Atlantis'']"
    by (simp add: parseNames_def trim_def is_space_def)
  have k: "length (requests ?s) = 0" by (simp add: initialPage_def)
  have hit: "located ?rt (0, ''Eiffel Tower'') = Some (Fin 2.25, Fin 48.875)"
    by (simp add: located_def found_def parsed_def searchUrl_def sampleRuntime_def
        sampleEncode_def sampleNet_def sampleParseFloat_def)
  have miss: "fetch ?rt (Suc 0) (searchUrl ?rt ''Atlantis'') = Response True (Inr (Array []))"
    by (simp add: searchUrl_def sampleRuntime_def sampleEncode_def sampleNet_def)
  from geocodeScenes_store [of ?rt ?s]
  have "\<forall>a b c. parseNames (sceneText ?s) = [a, b] \<and> located ?rt (length (requests ?s), a) = Some c
          \<and> fetch ?rt (Suc (length (requests ?s))) (searchUrl ?rt b) = Response True (Inr (Array []))
         \<longrightarrow> waypoints (geocodeScenes ?rt ?s) = [Some \<lparr>name = a, coord = c\<rparr>]
            \<and> alerts (geocodeScenes ?rt ?s) = alerts ?s @ [''Could not find location: '' @ b]"
    by blast
  then have "waypoints (geocodeScenes ?rt ?s) = [Some \<lparr>name = ''Eiffel Tower'', coord = (Fin 2.25, Fin 48.875)\<rparr>]
      \<and> alerts (geocodeScenes ?rt ?s) = alerts ?s @ [''Could not find location: '' @ ''Atlantis'']"
    using names k hit miss by (simp del: append.simps)
  then show ?thesis
    by (simp add: initialPage_def)
qed

text \<open>
  The claim as stated fails on a batch in which no name succeeds, on a page that has a
  waypoint already: the names that succeeded are none, and the waypoint stays.
\<close>

theorem geocodeScenes_keeps_store_counterexample:
  "hits (sampleRuntime sampleNet) 0 (parseNames ''Atlantis'') = []
   \<and> waypoints (geocodeScenes (sampleRuntime sampleNet)
        (initialPage\<lparr>sceneText := ''Atlantis'',
           waypoints := [Some \<lparr>name = ''Waypoint 1'', coord = (Fin 10, Fin 20)\<rparr>]\<rparr>))
      = [Some \<lparr>name = ''Waypoint 1'', coord = (Fin 10, Fin 20)\<rparr>]
   \<and> alerts (geocodeScenes (sampleRuntime sampleNet)
        (initialPage\<lparr>sceneText := ''Atlantis'',
           waypoints := [Some \<lparr>name = ''Waypoint 1'', coord = (Fin 10, Fin 20)\<rparr>]\<rparr>))
      = [''Could not find location: Atlantis'']"
  by (simp add: geocodeScenes_def parseNames_def trim_def is_space_def initialPage_def
      geocodeName_def searchUrl_def sampleRuntime_def sampleEncode_def sampleNet_def
      notFound_def hits_def located_def found_def enumerate_eq_zip Let_def)

text \<open>
  C1, as amended. The batch does not test the coordinates: every name with a result on
  whose properties \<open>parseFloat\<close> returns gets a waypoint with the two numbers
  returned, whatever they are, so after a batch that replaced the waypoints they are all
  in range exactly when the parsed coordinates of all such results are.
\<close>

theorem geocodeScenes_no_validation:
  fixes rt :: "'v runtime" and s :: page
  defines "names \<equiv> parseNames (sceneText s)"
    and "k \<equiv> length (requests s)"
    and "s' \<equiv> geocodeScenes rt s"
  assumes some: "hits rt k names \<noteq> []"
  shows "(\<forall>kn \<in> set (enumerate k names). \<forall>lat lon x y.
            found rt kn = Some (lat, lon) \<and> parseFloat rt lon = Inr x \<and> parseFloat rt lat = Inr y
            \<longrightarrow> Some \<lparr>name = snd kn, coord = (x, y)\<rparr> \<in> set (waypoints s'))
    \<and> ((\<forall>w \<in> set (waypoints s'). \<exists>wp. w = Some wp \<and> inRange (coord wp))
        \<longleftrightarrow> (\<forall>kn \<in> set (enumerate k names). \<forall>lat lon x y.
              found rt kn = Some (lat, lon) \<and> parseFloat rt lon = Inr x \<and> parseFloat rt lat = Inr y
              \<longrightarrow> inRange (x, y)))"
proof -
  have store: "waypoints s' = map Some (hits rt k names)"
    using some unfolding names_def k_def s'_def by (simp add: geocodeScenes_waypoints)
  have placed: "\<forall>kn \<in> set (enumerate k names). \<forall>lat lon x y.
            found rt kn = Some (lat, lon) \<and> parseFloat rt lon = Inr x \<and> parseFloat rt lat = Inr y
            \<longrightarrow> Some \<lparr>name = snd kn, coord = (x, y)\<rparr> \<in> set (waypoints s')"
  proof (intro ballI allI impI)
    fix kn lat lon x y
    assume kn: "kn \<in> set (enumerate k names)"
      and r: "found rt kn = Some (lat, lon) \<and> parseFloat rt lon = Inr x \<and> parseFloat rt lat = Inr y"
    from r have "located rt kn = Some (x, y)" by (subst located_iff) simp
    with kn have "\<lparr>name = snd kn, coord = (x, y)\<rparr> \<in> set (hits rt k names)"
      by (subst in_hits) blast
    then show "Some \<lparr>name = snd kn, coord = (x, y)\<rparr> \<in> set (waypoints s')"
      by (simp add: store)
  qed
  have "(\<forall>w \<in> set (waypoints s'). \<exists>wp. w = Some wp \<and> inRange (coord wp))
      \<longleftrightarrow> (\<forall>wp \<in> set (hits rt k names). inRange (coord wp))"
    unfolding store by auto
  also have "\<dots> \<longleftrightarrow> (\<forall>kn \<in> set (enumerate k names). \<forall>c. located rt kn = Some c \<longrightarrow> inRange c)"
    using in_hits [of _ rt k names] by (auto; metis waypoint.select_convs(2))
  also have "\<dots> \<longleftrightarrow> (\<forall>kn \<in> set (enumerate k names). \<forall>lat lon x y.
              found rt kn = Some (lat, lon) \<and> parseFloat rt lon = Inr x \<and> parseFloat rt lat = Inr y
              \<longrightarrow> inRange (x, y))"
    by (simp add: located_iff) (metis fst_conv snd_conv surj_pair)
  finally show ?thesis using placed by blast
qed

theorem geocodeScenes_no_validation_witness:
  "Some \<lparr>name = ''Eiffel Tower'', coord = (Fin 2.25, Fin 48.875)\<rparr>
     \<in> set (waypoints (geocodeScenes (sampleRuntime sampleNet)
          (initialPage\<lparr>sceneText := ''Eiffel Tower''\<rparr>)))
   \<and> inRange (Fin 2.25, Fin 48.875)"
proof -
  let ?rt = "sampleRuntime sampleNet"
  let ?s = "initialPage\<lparr>sceneText := ''Eiffel Tower''\<rparr>"
  have names: "parseNames (sceneText ?s) = [''Eiffel Tower'']"
    by (simp add: parseNames_def trim_def is_space_def)
  have k: "length (requests ?s) = 0" by (simp add: initialPage_def)
  have hit: "found ?rt (0, ''Eiffel Tower'') = Some (Str ''48.875'', Str ''2.25'')"
    by (simp add: found_def searchUrl_def sampleRuntime_def sampleEncode_def sampleNet_def)
  have lon: "parseFloat ?rt (Str ''2.25'') = Inr (Fin 2.25)"
    and lat: "parseFloat ?rt (Str ''48.875'') = Inr (Fin 48.875)"
    by (simp_all add: sampleRuntime_def sampleParseFloat_def)
  have loc: "located ?rt (0, ''Eiffel Tower'') = Some (Fin 2.25, Fin 48.875)"
    by (simp add: located_def parsed_def hit lon lat)
  have some: "hits ?rt (length (requests ?s)) (parseNames (sceneText ?s)) \<noteq> []"
    by (simp only: names k) (simp add: hits_def loc)
  have mem: "(0, ''Eiffel Tower'') \<in> set (enumerate (length (requests ?s)) (parseNames (sceneText ?s)))"
    by (simp only: names k) simp
  from geocodeScenes_no_validation [OF some] mem hit lon lat
  have "Some \<lparr>name = snd (0::nat, ''Eiffel Tower''), coord = (Fin 2.25, Fin 48.875)\<rparr>
      \<in> set (waypoints (geocodeScenes ?rt ?s))"
    by blast
  then show ?thesis
    by (simp add: inRange_def le_def)
qed

text \<open>
  The claim as stated fails on a result with longitude 200 and latitude 95, and on one
  whose longitude parses to Infinity and whose latitude to NaN: both become waypoints.
\<close>

theorem geocodeScenes_out_of_range_counterexample:
  "waypoints (geocodeScenes (sampleRuntime sampleNet)
      (initialPage\<lparr>sceneText := ''Nowhere'' @ [CHR 0x0A] @ ''Void''\<rparr>))
     = [Some \<lparr>name = ''Nowhere'', coord = (Fin 200, Fin 95)\<rparr>,
        Some \<lparr>name = ''Void'', coord = (PosInf, NaN)\<rparr>]
   \<and> \<not> inRange (Fin 200, Fin 95) \<and> \<not> inRange (PosInf, NaN)"
  by (simp add: geocodeScenes_def parseNames_def trim_def is_space_def initialPage_def
      geocodeName_def searchUrl_def sampleRuntime_def sampleEncode_def sampleNet_def
      sampleParseFloat_def inRange_def le_def Let_def)

subsection \<open>The terrain toggle\<close>

lemma toggleTerrain_twice:
  assumes "mapRef s = Some m"
  shows "toggleTerrain (toggleTerrain s) =
    s\<lparr>mapRef := Some (m\<lparr>terrain := (if terrainEnabled s
        then Some \<lparr>source = ''terrain'', exaggeration = 1.5\<rparr> else None)\<rparr>)\<rparr>"
  using assms by (simp add: toggleTerrain_def)

lemma toggleTerrain_twice_agreeing:
  assumes "mapRef s = Some m"
    and "terrain m = (if terrainEnabled s
        then Some \<lparr>source = ''terrain'', exaggeration = 1.5\<rparr> else None)"
  shows "toggleTerrain (toggleTerrain s) = s"
  using assms by (simp add: toggleTerrain_def)

lemma toggleTerrain_no_map:
  "mapRef s = None \<Longrightarrow> toggleTerrain s = s"
  by (simp add: toggleTerrain_def)

text \<open>
  C6. The claim: two toggles bring the flag and the terrain setting of the map back to
  what they were before the first. On the page as mounted the flag is back at
  \<open>false\<close> and the terrain setting is not back: the style creates the map with the
  terrain set while the flag starts at \<open>false\<close>, so the first toggle sets the terrain
  that is there already and the second removes it.
\<close>

theorem toggleTerrain_twice_after_mount:
  "terrainEnabled (createMap initialPage) = False
   \<and> map_option terrain (mapRef (createMap initialPage))
       = Some (Some \<lparr>source = ''terrain'', exaggeration = 1.5\<rparr>)
   \<and> terrainEnabled (toggleTerrain (toggleTerrain (createMap initialPage))) = False
   \<and> map_option terrain (mapRef (toggleTerrain (toggleTerrain (createMap initialPage))))
       = Some None"
  by (simp add: toggleTerrain_def createMap_def initialPage_def)

subsection \<open>The edge filter\<close>

lemma split_on_first: "\<exists>ps. split_on sep h = takeWhile (\<lambda>c. c \<noteq> sep) h # ps"
  by (induction h) auto

lemma getClientInfo_ip:
  "fst (getClientInfo req) =
     (case headers req ''x-forwarded-for'' of
        None \<Rightarrow> nonEmptyHeader req ''x-real-ip''
      | Some h \<Rightarrow> if firstEntry h \<noteq> [] then Some (firstEntry h)
                  else nonEmptyHeader req ''x-real-ip'')"
proof (cases "headers req ''x-forwarded-for''")
  case None
  then show ?thesis
    by (simp add: getClientInfo_def or_else_def truthy_def nonEmptyHeader_def Let_def
        split: option.splits)
next
  case (Some h)
  obtain ps where sp: "split_on CHR '','' h = takeWhile (\<lambda>c. c \<noteq> CHR '','') h # ps"
    using split_on_first by blast
  show ?thesis
    by (simp add: getClientInfo_def Some sp or_else_def truthy_def nonEmptyHeader_def
        firstEntry_def Let_def split: option.splits)
qed

text \<open>
  C9, as amended. Whenever the pass-through call returns, both revisions answer with the
  plain pass-through, so the request goes on as it is. In \<open>src/middleware.ts\<close> a
  fault of the first pass-through call is caught and answered by a second pass-through
  whose response header \<open>x-middleware-error\<close> is the text of the fault without its
  leading and trailing HTTP white space, as long as the second call, the conversion of
  the fault to a text and the setting of the header do not throw. The forwarding IP is
  the trimmed first entry of \<open>x-forwarded-for\<close> when the header is present and that
  entry is not empty, else \<open>x-real-ip\<close> when present and not empty, else
  \<open>undefined\<close>.
\<close>

theorem edge_filter:
  "(nextThrows fw 0 = None \<longrightarrow>
      middleware fw req = Inr (Next []) \<and> middleware_clientInfo fw req = Inr (Next []))
   \<and> (\<forall>err v. nextThrows fw 0 = Some err \<and> nextThrows fw 1 = None
          \<and> errorText err = Inr v \<and> setThrows fw ''x-middleware-error'' v = None
        \<longrightarrow> middleware fw req = Inr (Next [(''x-middleware-error'', normalizeValue v)]))
   \<and> fst (getClientInfo req) =
       (case headers req ''x-forwarded-for'' of
          None \<Rightarrow> nonEmptyHeader req ''x-real-ip''
        | Some h \<Rightarrow> if firstEntry h \<noteq> [] then Some (firstEntry h)
                    else nonEmptyHeader req ''x-real-ip'')"
proof (intro conjI)
  show "nextThrows fw 0 = None \<longrightarrow>
      middleware fw req = Inr (Next []) \<and> middleware_clientInfo fw req = Inr (Next [])"
    by (simp add: middleware_def middleware_clientInfo_def split: prod.splits)
  show "\<forall>err v. nextThrows fw 0 = Some err \<and> nextThrows fw 1 = None
          \<and> errorText err = Inr v \<and> setThrows fw ''x-middleware-error'' v = None
        \<longrightarrow> middleware fw req = Inr (Next [(''x-middleware-error'', normalizeValue v)])"
    by (simp add: middleware_def)
  show "fst (getClientInfo req) =
       (case headers req ''x-forwarded-for'' of
          None \<Rightarrow> nonEmptyHeader req ''x-real-ip''
        | Some h \<Rightarrow> if firstEntry h \<noteq> [] then Some (firstEntry h)
                    else nonEmptyHeader req ''x-real-ip'')"
    by (rule getClientInfo_ip)
qed

theorem edge_filter_witness:
  "middleware faultOnce (sampleRequest [(''x-forwarded-for'', ''203.0.113.7, 10.0.0.1'')])
     = Inr (Next [(''x-middleware-error'', ''boom'')])
   \<and> middleware \<lparr>nextThrows = (\<lambda>k. None), setThrows = (\<lambda>h v. None)\<rparr>
       (sampleRequest [(''x-forwarded-for'', ''203.0.113.7, 10.0.0.1'')]) = Inr (Next [])
   \<and> middleware_clientInfo \<lparr>nextThrows = (\<lambda>k. None), setThrows = (\<lambda>h v. None)\<rparr>
       (sampleRequest [(''x-forwarded-for'', ''203.0.113.7, 10.0.0.1'')]) = Inr (Next [])
   \<and> fst (getClientInfo (sampleRequest [(''x-forwarded-for'', ''203.0.113.7, 10.0.0.1'')]))
     = Some ''203.0.113.7''"
  using edge_filter [of faultOnce "sampleRequest [(''x-forwarded-for'', ''203.0.113.7, 10.0.0.1'')]"]
    edge_filter [of "\<lparr>nextThrows = (\<lambda>k. None), setThrows = (\<lambda>h v. None)\<rparr>"
      "sampleRequest [(''x-forwarded-for'', ''203.0.113.7, 10.0.0.1'')]"]
  by (simp add: faultOnce_def sampleRequest_def errorText_def firstEntry_def trim_def is_space_def
      normalizeValue_def isHttpSpace_def)

text \<open>
  The claim as stated fails on a forwarded-for header whose first entry is empty: the
  header is present, and the IP extracted is the real-IP header (or \<open>undefined\<close>
  without one), since \<open>||\<close> passes over the empty string. And a fault of every
  pass-through call is thrown on by both revisions.
\<close>

theorem getClientInfo_empty_first_entry_counterexample:
  "headers (sampleRequest [(''x-forwarded-for'', '', 203.0.113.7''), (''x-real-ip'', ''198.51.100.9'')])
      ''x-forwarded-for'' = Some '', 203.0.113.7''
   \<and> split_on CHR '','' '', 203.0.113.7'' = [[], '' 203.0.113.7'']
   \<and> fst (getClientInfo
        (sampleRequest [(''x-forwarded-for'', '', 203.0.113.7''), (''x-real-ip'', ''198.51.100.9'')]))
      = Some ''198.51.100.9''
   \<and> fst (getClientInfo (sampleRequest [(''x-forwarded-for'', [])])) = None
   \<and> middleware_clientInfo faultAlways (sampleRequest []) = Inl (Error ''boom'')
   \<and> middleware faultAlways (sampleRequest []) = Inl (Error ''boom'')"
  by (simp add: sampleRequest_def getClientInfo_def or_else_def truthy_def trim_def
      is_space_def middleware_clientInfo_def middleware_def faultAlways_def)

end
